theory Spec2Isabelle
  imports Main "HOL-Library.Sublist"
begin

section \<open>Data model of freeagent.py\<close>

text \<open>
  Values decoded from the remote service's documents (\<^verbatim>\<open>xmltodict.parse\<close>,
  \<^verbatim>\<open>resp.json()\<close>): an element is text, absent content, a sequence of repeated
  elements, or a dictionary of children. A dictionary is an association list looked
  up by its first matching key.
\<close>

datatype pyval =
    PNone
  | PStr string
  | PInt int
  | PList "pyval list"
  | PDict "(string \<times> pyval) list"

text \<open>
  The exceptions the program can raise. \<open>Exception s\<close> is the plain
  \<^verbatim>\<open>Exception(s)\<close> of the source; the others are raised by the interpreter
  (a missing key, subscripting a value that is no dictionary, a missing attribute,
  a local variable read before it is bound, a date beyond the last representable
  day, \<^verbatim>\<open>next\<close> on an exhausted generator). \<open>UnboundLocalError\<close> is Python's subclass of \<open>NameError\<close>.
\<close>

datatype exn =
    Exception string
  | KeyError string
  | TypeError string
  | AttributeError string
  | UnboundLocalError string
  | OverflowError string
  | StopIteration

definition quote :: "string \<Rightarrow> string" where
  "quote s = [CHR 0x27] @ s @ [CHR 0x27]"

text \<open>\<^verbatim>\<open>str(e)\<close>, the text the authorization wrapper searches.\<close>

fun str_exn :: "exn \<Rightarrow> string" where
  "str_exn (Exception s) = s"
| "str_exn (KeyError k) = quote k"
| "str_exn (TypeError m) = m"
| "str_exn (AttributeError a) = ''object has no attribute '' @ quote a"
| "str_exn (UnboundLocalError v) =
     ''local variable '' @ quote v @ '' referenced before assignment''"
| "str_exn (OverflowError m) = m"
| "str_exn StopIteration = []"

fun is_NameError :: "exn \<Rightarrow> bool" where
  "is_NameError (UnboundLocalError v) = True"
| "is_NameError e = False"

text \<open>\<^verbatim>\<open>sub in s\<close> on strings.\<close>

fun contains :: "string \<Rightarrow> string \<Rightarrow> bool" where
  "contains sub [] = (sub = [])"
| "contains sub (c # cs) = (if prefix sub (c # cs) then True else contains sub cs)"

text \<open>\<^verbatim>\<open>v[k]\<close> with a string key: only a dictionary holding the key answers.\<close>

fun subscript :: "pyval \<Rightarrow> string \<Rightarrow> exn + pyval" where
  "subscript (PDict kvs) k =
     (case map_of kvs k of None \<Rightarrow> Inl (KeyError k) | Some v \<Rightarrow> Inr v)"
| "subscript (PStr s) k = Inl (TypeError ''string indices must be integers'')"
| "subscript (PList vs) k = Inl (TypeError ''list indices must be integers or slices, not str'')"
| "subscript PNone k = Inl (TypeError ''NoneType object is not subscriptable'')"
| "subscript (PInt i) k = Inl (TypeError ''int object is not subscriptable'')"

fun is_list :: "pyval \<Rightarrow> bool" where
  "is_list (PList vs) = True"
| "is_list v = False"

text \<open>\<^verbatim>\<open>str(v)\<close> of an optional identifier inside an f-string.\<close>

fun fmt_opt :: "string option \<Rightarrow> string" where
  "fmt_opt None = ''None''"
| "fmt_opt (Some s) = s"

subsection \<open>Clock readings\<close>

text \<open>
  A \<^verbatim>\<open>datetime\<close>: the date as its day number (\<^verbatim>\<open>toordinal\<close>: day 1 is
  0001-01-01, day 3652059 is 9999-12-31, the last one), and the time of day. Two
  readings compare, and subtract to a \<^verbatim>\<open>timedelta\<close>, through their count of
  microseconds; \<^verbatim>\<open>timedelta.seconds\<close> is the seconds field of the normalised
  difference (days, seconds below 86400, microseconds). Adding days to a reading
  raises \<open>OverflowError\<close> when the date leaves the representable range.
\<close>

record datetime =
  date_ord :: int
  hour :: int
  minute :: int
  second :: int
  microsecond :: int

definition micros :: "datetime \<Rightarrow> int" where
  "micros d =
     (((date_ord d * 24 + hour d) * 60 + minute d) * 60 + second d) * 1000000 + microsecond d"

definition dt_less :: "datetime \<Rightarrow> datetime \<Rightarrow> bool" where
  "dt_less a b = (micros a < micros b)"

definition max_ordinal :: int where
  "max_ordinal = 3652059"

definition add_days :: "datetime \<Rightarrow> int \<Rightarrow> exn + datetime" where
  "add_days d n =
     (if date_ord d + n < 1 \<or> max_ordinal < date_ord d + n then
        Inl (OverflowError ''date value out of range'')
      else Inr (d\<lparr>date_ord := date_ord d + n\<rparr>))"

text \<open>\<^verbatim>\<open>(a - b).seconds\<close>\<close>

definition seconds_between :: "datetime \<Rightarrow> datetime \<Rightarrow> int" where
  "seconds_between a b = ((micros a - micros b) div 1000000) mod 86400"

text \<open>
  The window check at the head of every cycle of \<^verbatim>\<open>add_until_done\<close>
  (lines 153 to 161): the number of seconds handed to \<^verbatim>\<open>time.sleep\<close>, or the
  exception of \<^verbatim>\<open>three_am + timedelta(days=1)\<close>. (The sum in the log line that
  follows stays below a date already computed, and raises nothing.)
\<close>

definition secs_until_3 :: "datetime \<Rightarrow> exn + int" where
  "secs_until_3 now =
     (let three_am = now\<lparr>hour := 2, minute := 59, second := 30, microsecond := 0\<rparr>;
          seven_am = now\<lparr>hour := 7, minute := 0, second := 0, microsecond := 0\<rparr>
      in if \<not> (dt_less three_am now \<and> dt_less now seven_am) then
           (if dt_less now three_am then Inr (seconds_between three_am now)
            else (case add_days three_am 1 of
                    Inl e \<Rightarrow> Inl e
                  | Inr next_three_am \<Rightarrow> Inr (seconds_between next_three_am now)))
         else Inr 0)"

subsection \<open>The world outside the program\<close>

text \<open>
  A response of the remote service: its status code, its body, and what the decoder
  applied to the body (\<^verbatim>\<open>xmltodict.parse(resp.text)\<close>, \<^verbatim>\<open>resp.json()\<close>)
  gives, which is a document or the decoder's exception. The decoders are external.
\<close>

record response =
  status_code :: int
  resp_text :: string
  parsed :: "exn + pyval"

text \<open>
  The effects the program has on its surroundings, in the order they happen:
  sleeps, HTTP requests (with the bearer credential they carry), the renewal request,
  file accesses, and the calls the scheduler makes on its client object.
\<close>

datatype event =
    Sleep int
  | Get string pyval
  | Post string pyval "string option"
  | Token_post string string pyval
  | Read_api_info
  | Write_token pyval
  | Call_player_id string string
  | Call_add_player string string string "string option"

text \<open>
  The state threaded through every operation: the two fields of the \<^verbatim>\<open>YahooApi\<close>
  object, the contents of \<^verbatim>\<open>api-info.private\<close> the wrapper reads, the clock
  (the k-th reading of \<^verbatim>\<open>datetime.now()\<close>), the remote service (its response to
  the k-th request the program sends; any service is such a sequence, since the
  program is deterministic between requests), and the trace of effects so far.
  Log lines are not part of the state.
\<close>

record world =
  access :: pyval
  refresh :: pyval
  client_id :: string
  client_secret :: string
  clock :: "nat \<Rightarrow> datetime"
  clock_reads :: nat
  server :: "nat \<Rightarrow> response"
  requests_sent :: nat
  trace :: "event list"

definition emit :: "event \<Rightarrow> world \<Rightarrow> world" where
  "emit e w = w\<lparr>trace := trace w @ [e]\<rparr>"

definition datetime_now :: "world \<Rightarrow> datetime \<times> world" where
  "datetime_now w = (clock w (clock_reads w), w\<lparr>clock_reads := Suc (clock_reads w)\<rparr>)"

definition time_sleep :: "int \<Rightarrow> world \<Rightarrow> world" where
  "time_sleep secs w = emit (Sleep secs) w"

text \<open>One HTTP exchange: the request is recorded, the service's next response returned.\<close>

definition http :: "event \<Rightarrow> world \<Rightarrow> response \<times> world" where
  "http req w =
     (server w (requests_sent w), emit req (w\<lparr>requests_sent := Suc (requests_sent w)\<rparr>))"

definition requests_get :: "string \<Rightarrow> pyval \<Rightarrow> world \<Rightarrow> response \<times> world" where
  "requests_get url bearer w = http (Get url bearer) w"

definition requests_post :: "string \<Rightarrow> pyval \<Rightarrow> string option \<Rightarrow> world \<Rightarrow> response \<times> world" where
  "requests_post url bearer data w = http (Post url bearer data) w"

section \<open>The authorization wrapper\<close>

text \<open>
  Lines 25 to 56 of the wrapper, the credential renewal: read the client id and
  secret, post the refresh credential, and on status 200 store the response and
  replace \<^verbatim>\<open>self.access\<close>.
\<close>

definition renew :: "world \<Rightarrow> (exn + unit) \<times> world" where
  "renew w =
     (let w2 = emit Read_api_info w;
          (resp, w3) = http (Token_post (client_id w2) (client_secret w2) (refresh w2)) w2
      in if status_code resp \<noteq> 200 then
           (Inl (Exception (''unable to get new token:'' @ resp_text resp)), w3)
         else
           (case parsed resp of
              Inl e \<Rightarrow> (Inl e, w3)
            | Inr resp_json \<Rightarrow>
                (let w4 = emit (Write_token resp_json) w3
                 in case subscript resp_json ''access_token'' of
                      Inl e \<Rightarrow> (Inl e, w4)
                    | Inr tok \<Rightarrow> (Inr (), w4\<lparr>access := tok\<rparr>))))"

text \<open>
  \<^verbatim>\<open>with_authorization(func)\<close>, lines 14 to 58. The wrapped call is a function of the
  world; its arguments are already applied.
\<close>

definition with_authorization ::
  "(world \<Rightarrow> (exn + 'a) \<times> world) \<Rightarrow> world \<Rightarrow> (exn + 'a) \<times> world" where
  "with_authorization func w =
     (case func w of
        (Inr r, w1) \<Rightarrow> (Inr r, w1)
      | (Inl e, w1) \<Rightarrow>
          if \<not> contains ''token_expired'' (str_exn e) then (Inl e, w1)
          else
            (case renew w1 of
               (Inl e2, w2) \<Rightarrow> (Inl e2, w2)
             | (Inr u, w2) \<Rightarrow> func w2))"

section \<open>The client: class YahooApi\<close>

text \<open>The function under the decorator, lines 75 to 92.\<close>

definition make_request_func ::
  "bool \<Rightarrow> string \<Rightarrow> string option \<Rightarrow> world \<Rightarrow> (exn + response) \<times> world" where
  "make_request_func is_post url data w =
     (if is_post then
        (let (resp, w1) = requests_post url (access w) data w
         in if status_code resp < 200 \<or> status_code resp \<ge> 300 then
              (Inl (Exception (resp_text resp)), w1)
            else (Inr resp, w1))
      else
        (let (discarded, w1) = requests_get url (access w) w
         in (Inl (UnboundLocalError ''resp''), w1)))"

definition make_request ::
  "bool \<Rightarrow> string \<Rightarrow> string option \<Rightarrow> world \<Rightarrow> (exn + response) \<times> world" where
  "make_request is_post url data = with_authorization (make_request_func is_post url data)"

text \<open>
  A generator, as far as its consumer sees it: the values it yields in order, ending
  by exhaustion or by an exception.
\<close>

datatype gen =
    Stop
  | Yield "pyval \<times> pyval \<times> pyval" gen
  | Raised exn

text \<open>\<^verbatim>\<open>next(g)\<close>\<close>

fun next_gen :: "gen \<Rightarrow> exn + (pyval \<times> pyval \<times> pyval)" where
  "next_gen Stop = Inl StopIteration"
| "next_gen (Yield t g) = Inr t"
| "next_gen (Raised e) = Inl e"

text \<open>The tuple \<^verbatim>\<open>player['player_key'], player['name']['full'], player\<close>.\<close>

definition player_entry :: "pyval \<Rightarrow> exn + (pyval \<times> pyval \<times> pyval)" where
  "player_entry player =
     (case subscript player ''player_key'' of
        Inl e \<Rightarrow> Inl e
      | Inr k \<Rightarrow>
          (case subscript player ''name'' of
             Inl e \<Rightarrow> Inl e
           | Inr n \<Rightarrow>
               (case subscript n ''full'' of
                  Inl e \<Rightarrow> Inl e
                | Inr f \<Rightarrow> Inr (k, f, player))))"

fun yield_each :: "pyval list \<Rightarrow> gen" where
  "yield_each [] = Stop"
| "yield_each (player # rest) =
     (case player_entry player of
        Inl e \<Rightarrow> Raised e
      | Inr t \<Rightarrow> Yield t (yield_each rest))"

text \<open>\<^verbatim>\<open>data['fantasy_content']['league']['players']['player']\<close>\<close>

definition player_obj_of :: "pyval \<Rightarrow> exn + pyval" where
  "player_obj_of data =
     (case subscript data ''fantasy_content'' of
        Inl e \<Rightarrow> Inl e
      | Inr fc \<Rightarrow>
          (case subscript fc ''league'' of
             Inl e \<Rightarrow> Inl e
           | Inr lg \<Rightarrow>
               (case subscript lg ''players'' of
                  Inl e \<Rightarrow> Inl e
                | Inr ps \<Rightarrow> subscript ps ''player'')))"

text \<open>Lines 98 to 104 of \<^verbatim>\<open>player_info\<close>: what the generator does with a response.\<close>

definition player_info_decode :: "response \<Rightarrow> gen" where
  "player_info_decode resp =
     (case parsed resp of
        Inl e \<Rightarrow> Raised e
      | Inr data \<Rightarrow>
          (case player_obj_of data of
             Inl e \<Rightarrow> Raised e
           | Inr player_obj \<Rightarrow>
               (case player_obj of
                  PList players \<Rightarrow> yield_each players
                | _ \<Rightarrow>
                    (case player_entry player_obj of
                       Inl e \<Rightarrow> Raised e
                     | Inr t \<Rightarrow> Yield t Stop))))"

definition YahooApi_player_info :: "string \<Rightarrow> string \<Rightarrow> world \<Rightarrow> gen \<times> world" where
  "YahooApi_player_info league_id player_id w =
     (let url = ''https://fantasysports.yahooapis.com/fantasy/v2/league/'' @ league_id
                @ ''/players;player_keys='' @ player_id @ ''/ownership''
      in case make_request False url None w of
           (Inl e, w1) \<Rightarrow> (Raised e, w1)
         | (Inr resp, w1) \<Rightarrow> (player_info_decode resp, w1))"

text \<open>The lines of a document, joined by newlines.\<close>

fun join_lines :: "string list \<Rightarrow> string" where
  "join_lines [] = []"
| "join_lines [l] = l"
| "join_lines (l # ls) = l @ [CHR 0x0A] @ join_lines ls"

definition data_add :: "string \<Rightarrow> string \<Rightarrow> string" where
  "data_add team_id add_player_id = join_lines
     [''<fantasy_content>'',
      ''  <transaction>'',
      ''    <type>add</type>'',
      ''    <player>'',
      ''      <player_key>'' @ add_player_id @ ''</player_key>'',
      ''      <transaction_data>'',
      ''        <type>add</type>'',
      ''        <destination_team_key>'' @ team_id @ ''</destination_team_key>'',
      ''      </transaction_data>'',
      ''    </player>'',
      ''  </transaction>'',
      ''</fantasy_content>'']"

definition data_replace :: "string \<Rightarrow> string \<Rightarrow> string option \<Rightarrow> string" where
  "data_replace team_id add_player_id remove_player_id = join_lines
     [''<fantasy_content>'',
      ''  <transaction>'',
      ''    <type>add/drop</type>'',
      ''    <players>'',
      ''      <player>'',
      ''        <player_key>'' @ add_player_id @ ''</player_key>'',
      ''        <transaction_data>'',
      ''          <type>add</type>'',
      ''          <destination_team_key>'' @ team_id @ ''</destination_team_key>'',
      ''        </transaction_data>'',
      ''      </player>'',
      ''      <player>'',
      ''        <player_key>'' @ fmt_opt remove_player_id @ ''</player_key>'',
      ''        <transaction_data>'',
      ''          <type>drop</type>'',
      ''          <source_team_key>'' @ team_id @ ''</source_team_key>'',
      ''        </transaction_data>'',
      ''      </player>'',
      ''    </players>'',
      ''  </transaction>'',
      ''</fantasy_content>'']"

text \<open>\<^verbatim>\<open>YahooApi.add_player\<close>, lines 106 to 148.\<close>

definition YahooApi_add_player ::
  "string \<Rightarrow> string \<Rightarrow> string \<Rightarrow> string option \<Rightarrow> world \<Rightarrow> (exn + unit) \<times> world" where
  "YahooApi_add_player league_id team_id add_player_id remove_player_id w =
     (let url = ''https://fantasysports.yahooapis.com/fantasy/v2/league/'' @ league_id
                @ ''/transactions'';
          payload = (if remove_player_id = None then data_add team_id add_player_id
                     else data_replace team_id add_player_id remove_player_id)
      in case make_request True url (Some payload) w of
           (Inl e, w1) \<Rightarrow> (Inl e, w1)
         | (Inr resp, w1) \<Rightarrow> (Inr (), w1))"

section \<open>The claim scheduler: add\_until\_done\<close>

text \<open>
  The scheduler's \<^verbatim>\<open>caller\<close> is any object; it uses two of its attributes.
  \<open>add_player\<close> is a method of the class. \<open>player_id\<close> is \<open>None\<close> for an
  object that has no such attribute, and reading it then raises \<open>AttributeError\<close>;
  a call of it gives a generator, which the scheduler advances once.
\<close>

record caller =
  player_id :: "(string \<Rightarrow> string \<Rightarrow> world \<Rightarrow> gen \<times> world) option"
  add_player ::
    "string \<Rightarrow> string \<Rightarrow> string \<Rightarrow> string option \<Rightarrow> world \<Rightarrow> (exn + unit) \<times> world"

text \<open>
  The object \<^verbatim>\<open>YahooApi()\<close> of the main block: the class defines
  \<^verbatim>\<open>make_request\<close>, \<^verbatim>\<open>player_info\<close> and \<^verbatim>\<open>add_player\<close>, and no
  \<^verbatim>\<open>player_id\<close>.
\<close>

definition YahooApi :: caller where
  "YahooApi = \<lparr>player_id = None, add_player = YahooApi_add_player\<rparr>"

text \<open>What one pass through the body of \<^verbatim>\<open>while True\<close> ends with.\<close>

datatype flow =
    Continue
  | Return string
  | Raise exn

text \<open>Lines 153 to 164: read the clock, sleep until the window opens.\<close>

definition window_wait :: "world \<Rightarrow> (exn + unit) \<times> world" where
  "window_wait w =
     (let (now, w1) = datetime_now w
      in case secs_until_3 now of
           Inl e \<Rightarrow> (Inl e, w1)
         | Inr secs \<Rightarrow> (Inr (), time_sleep secs w1))"

text \<open>Line 166: \<^verbatim>\<open>_, _, player_info = next(caller.player_id(league_id, player_add))\<close>\<close>

definition poll :: "caller \<Rightarrow> string \<Rightarrow> string \<Rightarrow> world \<Rightarrow> (exn + pyval) \<times> world" where
  "poll c league_id player_add w =
     (case player_id c of
        None \<Rightarrow> (Inl (AttributeError ''player_id''), w)
      | Some m \<Rightarrow>
          (case m league_id player_add (emit (Call_player_id league_id player_add) w) of
             (g, w1) \<Rightarrow>
               (case next_gen g of
                  Inl e \<Rightarrow> (Inl e, w1)
                | Inr (k, n, player_info) \<Rightarrow> (Inr player_info, w1))))"

text \<open>
  Lines 182 to 187: the claim write. Every exception is caught, the scheduler sleeps
  one second and continues; after a write that raised nothing the body has ended too,
  and the loop goes round again.
\<close>

definition attempt ::
  "caller \<Rightarrow> string \<Rightarrow> string \<Rightarrow> string \<Rightarrow> string option \<Rightarrow> world \<Rightarrow> flow \<times> world" where
  "attempt c league_id team_id player_add player_remove w =
     (case add_player c league_id team_id player_add player_remove
             (emit (Call_add_player league_id team_id player_add player_remove) w) of
        (Inl e, w1) \<Rightarrow> (Continue, time_sleep 1 w1)
      | (Inr u, w1) \<Rightarrow> (Continue, w1))"

text \<open>Lines 168 to 187: the branch on the ownership type.\<close>

definition decide ::
  "caller \<Rightarrow> string \<Rightarrow> string \<Rightarrow> string \<Rightarrow> string option \<Rightarrow> pyval \<Rightarrow> world \<Rightarrow> flow \<times> world" where
  "decide c league_id team_id player_add player_remove player_info w =
     (case subscript player_info ''ownership'' of
        Inl e \<Rightarrow> (Raise e, w)
      | Inr own \<Rightarrow>
          (case subscript own ''ownership_type'' of
             Inl e \<Rightarrow> (Raise e, w)
           | Inr ownership \<Rightarrow>
               if ownership = PStr ''waivers'' then (Continue, time_sleep 10 w)
               else if ownership = PStr ''team'' then
                 (case subscript player_info ''ownership'' of
                    Inl e \<Rightarrow> (Raise e, w)
                  | Inr own2 \<Rightarrow>
                      (case subscript own2 ''owner_team_key'' of
                         Inl e \<Rightarrow> (Raise e, w)
                       | Inr key \<Rightarrow>
                           if key = PStr team_id then (Return ''owned'', w)
                           else (Return ''taken'', w)))
               else attempt c league_id team_id player_add player_remove w))"

text \<open>Lines 166 to 187: the poll and the branch on what it obtained.\<close>

definition poll_and_decide ::
  "caller \<Rightarrow> string \<Rightarrow> string \<Rightarrow> string \<Rightarrow> string option \<Rightarrow> world \<Rightarrow> flow \<times> world" where
  "poll_and_decide c league_id team_id player_add player_remove w =
     (case poll c league_id player_add w of
        (Inl e, w1) \<Rightarrow> (Raise e, w1)
      | (Inr player_info, w1) \<Rightarrow>
          decide c league_id team_id player_add player_remove player_info w1)"

text \<open>One pass through the loop body: the window wait, then the poll.\<close>

definition poll_cycle ::
  "caller \<Rightarrow> string \<Rightarrow> string \<Rightarrow> string \<Rightarrow> string option \<Rightarrow> world \<Rightarrow> flow \<times> world" where
  "poll_cycle c league_id team_id player_add player_remove w =
     (case window_wait w of
        (Inl e, w1) \<Rightarrow> (Raise e, w1)
      | (Inr u, w1) \<Rightarrow> poll_and_decide c league_id team_id player_add player_remove w1)"

text \<open>
  A cycle that sleeps \<open>n\<close> seconds at its window check and then polls: the wait
  returns in the world after the clock reading and that sleep, and the rest of the
  cycle is the poll from there.
\<close>

definition waits_then_polls ::
  "caller \<Rightarrow> string \<Rightarrow> string \<Rightarrow> string \<Rightarrow> string option \<Rightarrow> world \<Rightarrow> int \<Rightarrow> bool" where
  "waits_then_polls c league_id team_id player_add player_remove w n =
     (window_wait w = (Inr (), time_sleep n (snd (datetime_now w)))
      \<and> poll_cycle c league_id team_id player_add player_remove w
          = poll_and_decide c league_id team_id player_add player_remove
              (time_sleep n (snd (datetime_now w))))"

text \<open>
  The loop itself is unbounded: \<open>None\<close> is a run that never leaves it, \<open>Some\<close>
  a run that returns a status or ends by an uncaught exception.
\<close>

partial_function (option) add_until_done ::
  "caller \<Rightarrow> string \<Rightarrow> string \<Rightarrow> string \<Rightarrow> string option \<Rightarrow> world
     \<Rightarrow> ((exn + string) \<times> world) option" where
  "add_until_done c league_id team_id player_add player_remove w =
     (case poll_cycle c league_id team_id player_add player_remove w of
        (Continue, w1) \<Rightarrow> add_until_done c league_id team_id player_add player_remove w1
      | (Return status, w1) \<Rightarrow> Some (Inr status, w1)
      | (Raise e, w1) \<Rightarrow> Some (Inl e, w1))"

declare add_until_done.simps [code]

section \<open>The campaign runner: the main block\<close>

text \<open>Lines 206 to 209, for any client object and configuration.\<close>

fun main_loop ::
  "caller \<Rightarrow> string \<Rightarrow> string \<Rightarrow> string list \<Rightarrow> string option \<Rightarrow> world
     \<Rightarrow> ((exn + unit) \<times> world) option" where
  "main_loop c league_id team_id [] drop_id w = Some (Inr (), w)"
| "main_loop c league_id team_id (player_add # adds) drop_id w =
     (case add_until_done c league_id team_id player_add drop_id w of
        None \<Rightarrow> None
      | Some (Inl e, w1) \<Rightarrow> Some (Inl e, w1)
      | Some (Inr status, w1) \<Rightarrow>
          if status = ''owned'' then Some (Inr (), w1)
          else main_loop c league_id team_id adds drop_id w1)"

text \<open>The program: the loop on the object the main block builds.\<close>

definition main :: "string \<Rightarrow> string \<Rightarrow> string list \<Rightarrow> string option \<Rightarrow> world
     \<Rightarrow> ((exn + unit) \<times> world) option" where
  "main league_id team_id adds drop_id w = main_loop YahooApi league_id team_id adds drop_id w"

section \<open>Observations on a run\<close>

text \<open>Counting the effects in a trace: renewal requests, requests to the fantasy
  service, claim writes the scheduler asks its client for, and the pauses.\<close>

fun is_renewal :: "event \<Rightarrow> bool" where
  "is_renewal (Token_post i s r) = True"
| "is_renewal e = False"

fun is_call :: "event \<Rightarrow> bool" where
  "is_call (Get url b) = True"
| "is_call (Post url b d) = True"
| "is_call e = False"

fun is_claim_write :: "event \<Rightarrow> bool" where
  "is_claim_write (Call_add_player l t p r) = True"
| "is_claim_write e = False"

fun is_sleep :: "event \<Rightarrow> bool" where
  "is_sleep (Sleep n) = True"
| "is_sleep e = False"

fun is_client_call :: "event \<Rightarrow> bool" where
  "is_client_call (Call_player_id l p) = True"
| "is_client_call (Call_add_player l t p r) = True"
| "is_client_call e = False"

definition renewals :: "world \<Rightarrow> nat" where
  "renewals w = length (filter is_renewal (trace w))"

definition calls :: "world \<Rightarrow> nat" where
  "calls w = length (filter is_call (trace w))"

definition claim_writes :: "world \<Rightarrow> nat" where
  "claim_writes w = length (filter is_claim_write (trace w))"

definition sleeps :: "world \<Rightarrow> event list" where
  "sleeps w = filter is_sleep (trace w)"

definition client_calls :: "world \<Rightarrow> event list" where
  "client_calls w = filter is_client_call (trace w)"

text \<open>
  The scheduler run on each candidate of a list in turn, with one drop identifier,
  every run returning \<^verbatim>\<open>'taken'\<close>: the world after the last of them, and \<open>None\<close>
  when some run does not return \<^verbatim>\<open>'taken'\<close>.
\<close>

fun taken_run ::
  "caller \<Rightarrow> string \<Rightarrow> string \<Rightarrow> string list \<Rightarrow> string option \<Rightarrow> world \<Rightarrow> world option" where
  "taken_run c league_id team_id [] drop_id w = Some w"
| "taken_run c league_id team_id (p # ps) drop_id w =
     (case add_until_done c league_id team_id p drop_id w of
        None \<Rightarrow> None
      | Some (Inl e, w1) \<Rightarrow> None
      | Some (Inr status, w1) \<Rightarrow>
          if status = ''taken'' then taken_run c league_id team_id ps drop_id w1 else None)"

section \<open>Concrete scenarios\<close>

text \<open>
  Inputs on which the definitions are run: a clock that always reads 04:00 of day
  738000 (in the year 2021), inside the polling window; a remote service that answers
  from a list of responses, then with status 503; and a starting world with nothing
  sent and nothing traced.
\<close>

definition four_am :: datetime where
  "four_am = \<lparr>date_ord = 738000, hour = 4, minute = 0, second = 0, microsecond = 0\<rparr>"

definition unavailable :: response where
  "unavailable = \<lparr>status_code = 503, resp_text = ''unavailable'', parsed = Inl (Exception ''no document'')\<rparr>"

definition script :: "response list \<Rightarrow> nat \<Rightarrow> response" where
  "script rs k = (if k < length rs then rs ! k else unavailable)"

definition world0 :: "response list \<Rightarrow> world" where
  "world0 rs =
     \<lparr>access = PStr ''a0'', refresh = PStr ''r0'', client_id = ''id'', client_secret = ''secret'',
      clock = (\<lambda>k. four_am), clock_reads = 0, server = script rs, requests_sent = 0,
      trace = []\<rparr>"

text \<open>The same world with the clock stopped at another reading; readings half a
  second before 02:59:30, and one second past 07:00 on the last representable day.\<close>

definition world_at :: "datetime \<Rightarrow> response list \<Rightarrow> world" where
  "world_at now rs = (world0 rs)\<lparr>clock := (\<lambda>k. now)\<rparr>"

definition half_second_early :: datetime where
  "half_second_early =
     \<lparr>date_ord = 738000, hour = 2, minute = 59, second = 29, microsecond = 500000\<rparr>"

definition one_second_early :: datetime where
  "one_second_early =
     \<lparr>date_ord = 738000, hour = 2, minute = 59, second = 29, microsecond = 0\<rparr>"

definition last_day_after_seven :: datetime where
  "last_day_after_seven =
     \<lparr>date_ord = 3652059, hour = 7, minute = 0, second = 1, microsecond = 0\<rparr>"

text \<open>Responses: success with no document, an expired credential, a rejected renewal,
  a granted renewal.\<close>

definition ok_response :: response where
  "ok_response = \<lparr>status_code = 200, resp_text = ''ok'', parsed = Inl (Exception ''no document'')\<rparr>"

definition expired_response :: response where
  "expired_response =
     \<lparr>status_code = 401, resp_text = ''oauth_problem=token_expired'',
      parsed = Inl (Exception ''no document'')\<rparr>"

definition rejected_renewal :: response where
  "rejected_renewal =
     \<lparr>status_code = 400, resp_text = ''invalid_grant'', parsed = Inl (Exception ''no document'')\<rparr>"

definition granted_renewal :: response where
  "granted_renewal =
     \<lparr>status_code = 200, resp_text = ''token'',
      parsed = Inr (PDict [(''access_token'', PStr ''a1''), (''expires_in'', PInt 3600)])\<rparr>"

text \<open>An ownership document for one player, with the given ownership sub-record, the
  player entry being a scalar or a one-element sequence.\<close>

definition the_player :: "(string \<times> pyval) list \<Rightarrow> pyval" where
  "the_player own =
     PDict [(''player_key'', PStr ''p1''), (''name'', PDict [(''full'', PStr ''A Player'')]),
            (''ownership'', PDict own)]"

definition players_doc :: "pyval \<Rightarrow> response" where
  "players_doc player_obj =
     \<lparr>status_code = 200, resp_text = ''players'',
      parsed = Inr (PDict [(''fantasy_content'',
                 PDict [(''league'', PDict [(''players'', PDict [(''player'', player_obj)])])])])\<rparr>"

definition ownership_response :: "(string \<times> pyval) list \<Rightarrow> response" where
  "ownership_response own = players_doc (the_player own)"

definition free_agent :: response where
  "free_agent = ownership_response [(''ownership_type'', PStr ''freeagents'')]"

definition owned_by :: "string \<Rightarrow> response" where
  "owned_by team =
     ownership_response [(''ownership_type'', PStr ''team''), (''owner_team_key'', PStr team)]"

text \<open>Services for whole runs: the player stays free after a first accepted write;
  a first candidate goes to another team and a second to the target team.\<close>

definition free_twice_then_owned :: "response list" where
  "free_twice_then_owned = [free_agent, ok_response, free_agent, ok_response, owned_by ''T'']"

definition taken_then_owned :: "response list" where
  "taken_then_owned =
     [free_agent, ok_response, owned_by ''X'', free_agent, ok_response, owned_by ''T'']"

text \<open>
  A client object that has the attribute the scheduler asks for: its
  \<open>player_id\<close> sends the ownership query and decodes the answer as
  \<^verbatim>\<open>player_info\<close> decodes a response; its \<open>add_player\<close> is the class's.
\<close>

definition reading_player_id :: "string \<Rightarrow> string \<Rightarrow> world \<Rightarrow> gen \<times> world" where
  "reading_player_id league_id a_player w =
     (let (resp, w1) = requests_get (league_id @ ''/'' @ a_player) (access w) w
      in (player_info_decode resp, w1))"

definition reading_client :: caller where
  "reading_client = \<lparr>player_id = Some reading_player_id, add_player = YahooApi_add_player\<rparr>"

section \<open>Properties\<close>

lemmas env_defs =
  emit_def datetime_now_def time_sleep_def http_def requests_get_def requests_post_def

lemmas scenario_defs =
  four_am_def unavailable_def script_def world0_def world_at_def half_second_early_def
  one_second_early_def last_day_after_seven_def ok_response_def expired_response_def
  rejected_renewal_def granted_renewal_def the_player_def players_doc_def
  ownership_response_def reading_player_id_def reading_client_def

lemmas clock_defs =
  secs_until_3_def dt_less_def micros_def seconds_between_def add_days_def max_ordinal_def

lemmas run_defs =
  poll_def window_wait_def player_info_decode_def player_obj_of_def player_entry_def
  clock_defs env_defs scenario_defs

lemmas cycle_defs =
  poll_cycle_def poll_and_decide_def decide_def attempt_def YahooApi_add_player_def
  make_request_def with_authorization_def make_request_func_def free_agent_def owned_by_def
  claim_writes_def sleeps_def

subsection \<open>The polling window\<close>

lemma secs_until_3_nonneg: "secs_until_3 now = Inr n \<Longrightarrow> 0 \<le> n"
  by (auto simp add: secs_until_3_def seconds_between_def Let_def split: if_splits sum.splits)

lemma window_wait_reading:
  "clock w (clock_reads w) = now \<Longrightarrow> secs_until_3 now = Inr n \<Longrightarrow>
   window_wait w = (Inr (), time_sleep n (snd (datetime_now w)))"
  by (simp add: window_wait_def datetime_now_def)

lemma window_wait_raising:
  "clock w (clock_reads w) = now \<Longrightarrow> secs_until_3 now = Inl e \<Longrightarrow>
   window_wait w = (Inl e, snd (datetime_now w))"
  by (simp add: window_wait_def datetime_now_def)

lemma poll_cycle_after_wait:
  "window_wait w = (Inr (), w1) \<Longrightarrow> poll_cycle c l t p r w = poll_and_decide c l t p r w1"
  by (simp add: poll_cycle_def)

lemma poll_cycle_wait_raised:
  "window_wait w = (Inl e, w1) \<Longrightarrow> poll_cycle c l t p r w = (Raise e, w1)"
  by (simp add: poll_cycle_def)

lemma waits_then_polls_reading:
  "clock w (clock_reads w) = now \<Longrightarrow> secs_until_3 now = Inr n \<Longrightarrow>
   waits_then_polls c l t p r w n"
  unfolding waits_then_polls_def
  using window_wait_reading [of w now n] poll_cycle_after_wait [of w] by simp

text \<open>What the window check computes at the readings around the two boundaries.\<close>

lemma secs_one_second_early:
  "secs_until_3 \<lparr>date_ord = d, hour = 2, minute = 59, second = 29, microsecond = 0\<rparr> = Inr 1"
  by (simp add: clock_defs)

lemma secs_within_second_early:
  "0 < us \<Longrightarrow> us < 1000000 \<Longrightarrow>
   secs_until_3 \<lparr>date_ord = d, hour = 2, minute = 59, second = 29, microsecond = us\<rparr> = Inr 0"
  by (simp add: clock_defs)

lemma secs_after_opening:
  "0 \<le> us \<Longrightarrow> us < 1000000 \<Longrightarrow>
   secs_until_3 \<lparr>date_ord = d, hour = 2, minute = 59, second = 31, microsecond = us\<rparr> = Inr 0"
  by (simp add: clock_defs)

lemma secs_before_closing:
  "0 \<le> us \<Longrightarrow> us < 1000000 \<Longrightarrow>
   secs_until_3 \<lparr>date_ord = d, hour = 6, minute = 59, second = 59, microsecond = us\<rparr> = Inr 0"
  by (simp add: clock_defs)

lemma after_closing_div:
  assumes "0 \<le> us" and "us < 1000000"
  shows "(71969000000 - us) div 1000000 = (if us = 0 then 71969 else (71968::int))"
proof (cases "us = 0")
  case True
  then show ?thesis by simp
next
  case False
  with assms have "71969000000 - us = 1000000 * 71968 + (1000000 - us)"
    and "0 \<le> 1000000 - us" and "1000000 - us < 1000000"
    by simp_all
  then have "(71969000000 - us) div 1000000 = 71968"
    by (rule int_div_pos_eq)
  with False show ?thesis by simp
qed

lemma secs_after_closing:
  "0 \<le> us \<Longrightarrow> us < 1000000 \<Longrightarrow> 1 \<le> d \<Longrightarrow> d < max_ordinal \<Longrightarrow>
   secs_until_3 \<lparr>date_ord = d, hour = 7, minute = 0, second = 1, microsecond = us\<rparr>
     = Inr (if us = 0 then 71969 else 71968)"
  using after_closing_div [of us] by (simp add: clock_defs)

lemma secs_after_closing_last_day:
  "0 \<le> us \<Longrightarrow> us < 1000000 \<Longrightarrow>
   secs_until_3 \<lparr>date_ord = max_ordinal, hour = 7, minute = 0, second = 1, microsecond = us\<rparr>
     = Inl (OverflowError ''date value out of range'')"
  by (simp add: clock_defs)

text \<open>
  C2, as the code has it. In a cycle whose clock reading is 02:59:29 on the full
  second, the scheduler sleeps one second and then polls; at a later reading within
  that second it sleeps zero seconds and polls at once. At every reading within the
  seconds 02:59:31 and 06:59:59 it sleeps zero seconds and polls. At every reading
  within the second 07:00:01, on a day before the last representable one, it sleeps
  71969 seconds (on the full second, which ends at 02:59:30 of the next day) or 71968
  seconds (after it) before it polls; on the last day the cycle ends with
  \<open>OverflowError\<close> and no sleep.
\<close>

theorem window_wait_at_boundaries:
  "(clock w (clock_reads w)
      = \<lparr>date_ord = d, hour = 2, minute = 59, second = 29, microsecond = 0\<rparr>
      \<longrightarrow> waits_then_polls c l t p r w 1)
   \<and> (0 < us \<and> us < 1000000 \<and> clock w (clock_reads w)
      = \<lparr>date_ord = d, hour = 2, minute = 59, second = 29, microsecond = us\<rparr>
      \<longrightarrow> waits_then_polls c l t p r w 0)
   \<and> (0 \<le> us \<and> us < 1000000 \<and> clock w (clock_reads w)
      = \<lparr>date_ord = d, hour = 2, minute = 59, second = 31, microsecond = us\<rparr>
      \<longrightarrow> waits_then_polls c l t p r w 0)
   \<and> (0 \<le> us \<and> us < 1000000 \<and> clock w (clock_reads w)
      = \<lparr>date_ord = d, hour = 6, minute = 59, second = 59, microsecond = us\<rparr>
      \<longrightarrow> waits_then_polls c l t p r w 0)
   \<and> (0 \<le> us \<and> us < 1000000 \<and> 1 \<le> d \<and> d < max_ordinal \<and> clock w (clock_reads w)
      = \<lparr>date_ord = d, hour = 7, minute = 0, second = 1, microsecond = us\<rparr>
      \<longrightarrow> waits_then_polls c l t p r w (if us = 0 then 71969 else 71968))
   \<and> (0 \<le> us \<and> us < 1000000 \<and> clock w (clock_reads w)
      = \<lparr>date_ord = max_ordinal, hour = 7, minute = 0, second = 1, microsecond = us\<rparr>
      \<longrightarrow> poll_cycle c l t p r w
            = (Raise (OverflowError ''date value out of range''), snd (datetime_now w)))"
proof (intro conjI impI)
  assume "clock w (clock_reads w)
      = \<lparr>date_ord = d, hour = 2, minute = 59, second = 29, microsecond = 0\<rparr>"
  then show "waits_then_polls c l t p r w 1"
    by (rule waits_then_polls_reading) (rule secs_one_second_early)
next
  assume "0 < us \<and> us < 1000000 \<and> clock w (clock_reads w)
      = \<lparr>date_ord = d, hour = 2, minute = 59, second = 29, microsecond = us\<rparr>"
  then show "waits_then_polls c l t p r w 0"
    using waits_then_polls_reading [OF _ secs_within_second_early [of us d]] by blast
next
  assume "0 \<le> us \<and> us < 1000000 \<and> clock w (clock_reads w)
      = \<lparr>date_ord = d, hour = 2, minute = 59, second = 31, microsecond = us\<rparr>"
  then show "waits_then_polls c l t p r w 0"
    using waits_then_polls_reading [OF _ secs_after_opening [of us d]] by blast
next
  assume "0 \<le> us \<and> us < 1000000 \<and> clock w (clock_reads w)
      = \<lparr>date_ord = d, hour = 6, minute = 59, second = 59, microsecond = us\<rparr>"
  then show "waits_then_polls c l t p r w 0"
    using waits_then_polls_reading [OF _ secs_before_closing [of us d]] by blast
next
  assume "0 \<le> us \<and> us < 1000000 \<and> 1 \<le> d \<and> d < max_ordinal \<and> clock w (clock_reads w)
      = \<lparr>date_ord = d, hour = 7, minute = 0, second = 1, microsecond = us\<rparr>"
  then show "waits_then_polls c l t p r w (if us = 0 then 71969 else 71968)"
    using waits_then_polls_reading [OF _ secs_after_closing [of us d]] by blast
next
  assume "0 \<le> us \<and> us < 1000000 \<and> clock w (clock_reads w)
      = \<lparr>date_ord = max_ordinal, hour = 7, minute = 0, second = 1, microsecond = us\<rparr>"
  then have "window_wait w = (Inl (OverflowError ''date value out of range''), snd (datetime_now w))"
    using window_wait_raising [OF _ secs_after_closing_last_day [of us]] by blast
  then show "poll_cycle c l t p r w
            = (Raise (OverflowError ''date value out of range''), snd (datetime_now w))"
    by (rule poll_cycle_wait_raised)
qed

text \<open>
  C2 as stated fails half a second after 02:59:29: the sleep is zero and the poll is
  sent at once. It also fails at 07:00:01 of the last representable day, where the
  window check raises.
\<close>

theorem window_open_half_second_early:
  "fst (poll_cycle reading_client ''L'' ''T'' ''p1'' None (world_at half_second_early [owned_by ''T'']))
     = Return ''owned''
   \<and> trace (snd (poll_cycle reading_client ''L'' ''T'' ''p1'' None
         (world_at half_second_early [owned_by ''T''])))
     = [Sleep 0, Call_player_id ''L'' ''p1'', Get ''L/p1'' (PStr ''a0'')]
   \<and> fst (window_wait (world_at last_day_after_seven []))
     = Inl (OverflowError ''date value out of range'')"
  by (simp add: cycle_defs run_defs)

theorem window_wait_at_boundaries_witness:
  "fst (poll_cycle reading_client ''L'' ''T'' ''p1'' None (world_at one_second_early [owned_by ''T'']))
     = Return ''owned''
   \<and> trace (snd (poll_cycle reading_client ''L'' ''T'' ''p1'' None
         (world_at one_second_early [owned_by ''T''])))
     = [Sleep 1, Call_player_id ''L'' ''p1'', Get ''L/p1'' (PStr ''a0'')]"
proof -
  let ?START = "world_at one_second_early [owned_by ''T'']"
  let ?SLEPT = "time_sleep 1 (snd (datetime_now ?START))"
  have reading: "clock ?START (clock_reads ?START)
      = \<lparr>date_ord = 738000, hour = 2, minute = 59, second = 29, microsecond = 0\<rparr>"
    by (simp add: scenario_defs)
  from window_wait_at_boundaries [of ?START 738000 reading_client "''L''" "''T''" "''p1''" None]
    reading
  have "waits_then_polls reading_client ''L'' ''T'' ''p1'' None ?START 1"
    by blast
  then have cyc: "poll_cycle reading_client ''L'' ''T'' ''p1'' None ?START
                  = poll_and_decide reading_client ''L'' ''T'' ''p1'' None ?SLEPT"
    unfolding waits_then_polls_def by blast
  have "fst (poll_and_decide reading_client ''L'' ''T'' ''p1'' None ?SLEPT) = Return ''owned''"
    by (simp add: cycle_defs run_defs)
  moreover have "trace (snd (poll_and_decide reading_client ''L'' ''T'' ''p1'' None ?SLEPT))
     = [Sleep 1, Call_player_id ''L'' ''p1'', Get ''L/p1'' (PStr ''a0'')]"
    by (simp add: cycle_defs run_defs)
  ultimately show ?thesis unfolding cyc by simp
qed

subsection \<open>Requests\<close>

lemma token_expired_not_in_unbound:
  "\<not> contains ''token_expired'' (str_exn (UnboundLocalError ''resp''))"
  by (simp add: quote_def)

text \<open>
  C10. A call of \<open>make_request\<close> that is not a POST sends the GET, never binds its
  response, and raises \<open>UnboundLocalError\<close> (a \<open>NameError\<close>) for \<open>resp\<close>,
  whatever the service answered; the wrapper passes the error on without renewal. No
  such call returns a response.
\<close>

theorem make_request_get_always_raises:
  "make_request_func False url data w =
     (Inl (UnboundLocalError ''resp''), snd (requests_get url (access w) w))
   \<and> make_request False url data w = make_request_func False url data w
   \<and> is_NameError (UnboundLocalError ''resp'')"
  by (simp add: make_request_def make_request_func_def with_authorization_def split_beta
      quote_def)

text \<open>What the function under the decorator does with the response to a POST.\<close>

lemma make_request_func_post:
  "make_request_func True url data w =
     (let resp = server w (requests_sent w)
      in if status_code resp < 200 \<or> 300 \<le> status_code resp then Inl (Exception (resp_text resp))
         else Inr resp,
      snd (requests_post url (access w) data w))"
  by (simp add: make_request_func_def env_defs Let_def)

text \<open>
  C6. The claim holds for a POST (\<open>make_request_func_post\<close>) and fails for a GET:
  on a service answering 200, the read raises instead of returning the response.
\<close>

theorem make_request_get_200_raises:
  "fst (make_request False ''u'' None (world0 [ok_response])) = Inl (UnboundLocalError ''resp'')
   \<and> status_code (server (world0 [ok_response]) 0) = 200"
  by (simp add: make_request_def make_request_func_def with_authorization_def split_beta
      quote_def env_defs scenario_defs)

subsection \<open>Decoding the ownership document\<close>

text \<open>
  C7. A response whose player entry is a scalar (anything but a sequence) and a
  response whose player entry is the one-element sequence of that same entry decode
  to the same generator: the same tuples, or the same exception.
\<close>

theorem dual_shape_decoding:
  assumes "parsed r1 = Inr d1" and "parsed r2 = Inr d2"
    and "player_obj_of d1 = Inr p" and "player_obj_of d2 = Inr (PList [p])"
    and "\<not> is_list p"
  shows "player_info_decode r1 = player_info_decode r2"
  using assms by (cases p) (simp_all add: player_info_decode_def split: sum.splits)

theorem dual_shape_decoding_witness:
  "player_info_decode (players_doc (the_player [(''ownership_type'', PStr ''freeagents'')]))
   = player_info_decode (players_doc (PList [the_player [(''ownership_type'', PStr ''freeagents'')]]))
   \<and> player_info_decode (players_doc (PList [the_player [(''ownership_type'', PStr ''freeagents'')]]))
   = Yield (PStr ''p1'', PStr ''A Player'', the_player [(''ownership_type'', PStr ''freeagents'')]) Stop"
proof -
  let ?ENTRY = "the_player [(''ownership_type'', PStr ''freeagents'')]"
  have a: "parsed (players_doc ?ENTRY) = Inr (PDict [(''fantasy_content'',
                 PDict [(''league'', PDict [(''players'', PDict [(''player'', ?ENTRY)])])])])"
    by (simp add: players_doc_def)
  have b: "parsed (players_doc (PList [?ENTRY])) = Inr (PDict [(''fantasy_content'',
                 PDict [(''league'', PDict [(''players'', PDict [(''player'', PList [?ENTRY])])])])])"
    by (simp add: players_doc_def)
  have c: "\<not> is_list ?ENTRY" by (simp add: the_player_def)
  have "player_info_decode (players_doc ?ENTRY) = player_info_decode (players_doc (PList [?ENTRY]))"
    by (rule dual_shape_decoding [OF a b _ _ c]) (simp_all add: player_obj_of_def)
  moreover have "player_info_decode (players_doc (PList [?ENTRY]))
                 = Yield (PStr ''p1'', PStr ''A Player'', ?ENTRY) Stop"
    by (simp add: player_info_decode_def players_doc_def player_obj_of_def player_entry_def
        the_player_def)
  ultimately show ?thesis by simp
qed

text \<open>
  In the class as written the decode is never reached: the generator of
  \<^verbatim>\<open>player_info\<close> raises at its first step, in the read before the decode.
\<close>

lemma YahooApi_player_info_raises:
  "fst (YahooApi_player_info league_id p w) = Raised (UnboundLocalError ''resp'')"
  by (simp add: YahooApi_player_info_def make_request_def make_request_func_def
      with_authorization_def split_beta quote_def)

subsection \<open>Credential renewal\<close>

lemma renew_rejected:
  assumes "status_code (server w (requests_sent w)) \<noteq> 200"
  shows "renew w =
     (Inl (Exception (''unable to get new token:'' @ resp_text (server w (requests_sent w)))),
      snd (http (Token_post (client_id w) (client_secret w) (refresh w)) (emit Read_api_info w)))"
  using assms by (simp add: renew_def env_defs Let_def)

lemma renew_refresh: "refresh (snd (renew w)) = refresh w"
  by (simp add: renew_def env_defs Let_def split: sum.splits)

lemma renew_access_changed:
  "access (snd (renew w)) \<noteq> access w \<Longrightarrow> status_code (server w (requests_sent w)) = 200"
  by (auto simp add: renew_def env_defs Let_def split: sum.splits if_splits)

lemma renew_granted:
  "fst (renew w) = Inr u \<Longrightarrow>
     status_code (server w (requests_sent w)) = 200
     \<and> (\<exists>doc. parsed (server w (requests_sent w)) = Inr doc
           \<and> subscript doc ''access_token'' = Inr (access (snd (renew w))))"
  by (auto simp add: renew_def env_defs Let_def split: sum.splits if_splits)

lemma renew_trace_rejected:
  "status_code (server w (requests_sent w)) \<noteq> 200 \<Longrightarrow>
   trace (snd (renew w)) = trace w @ [Read_api_info, Token_post (client_id w) (client_secret w) (refresh w)]
   \<and> access (snd (renew w)) = access w"
  by (simp add: renew_def env_defs Let_def)

lemma renew_on_200:
  assumes "status_code (server w (requests_sent w)) = 200"
    and "parsed (server w (requests_sent w)) = Inr doc"
    and "subscript doc ''access_token'' = Inr tok"
  shows "renew w =
     (Inr (), (emit (Write_token doc)
                (snd (http (Token_post (client_id w) (client_secret w) (refresh w))
                       (emit Read_api_info w))))\<lparr>access := tok\<rparr>)"
  using assms by (simp add: renew_def env_defs Let_def)

text \<open>
  C8. When the service answers the renewal request with a status other than 200, the
  renewal raises, leaves both credentials as they were and has sent that one request;
  the wrapper passes this error on without calling the wrapped function again. The
  renewal never changes the refresh credential, changes the access credential only
  on status 200, and when it succeeds the new access credential is the
  \<open>access_token\<close> of the response. When the service answers 200 with a document
  that holds an \<open>access_token\<close>, the renewal succeeds, stores the document,
  replaces the access credential by that token whatever it was before, keeps the
  refresh credential, and the wrapper then makes the call again in that state.
\<close>

theorem renewal_rejected_is_fatal:
  "(status_code (server w (requests_sent w)) \<noteq> 200 \<longrightarrow>
      fst (renew w) =
        Inl (Exception (''unable to get new token:'' @ resp_text (server w (requests_sent w))))
      \<and> access (snd (renew w)) = access w
      \<and> refresh (snd (renew w)) = refresh w
      \<and> trace (snd (renew w)) =
          trace w @ [Read_api_info, Token_post (client_id w) (client_secret w) (refresh w)]
      \<and> (func w0 = (Inl e, w) \<and> contains ''token_expired'' (str_exn e)
           \<longrightarrow> with_authorization func w0 =
                 (Inl (Exception (''unable to get new token:''
                         @ resp_text (server w (requests_sent w)))), snd (renew w))))
   \<and> refresh (snd (renew w)) = refresh w
   \<and> (access (snd (renew w)) \<noteq> access w \<longrightarrow> status_code (server w (requests_sent w)) = 200)
   \<and> (fst (renew w) = Inr () \<longrightarrow>
        status_code (server w (requests_sent w)) = 200
        \<and> (\<exists>doc. parsed (server w (requests_sent w)) = Inr doc
              \<and> subscript doc ''access_token'' = Inr (access (snd (renew w)))))
   \<and> (status_code (server w (requests_sent w)) = 200
        \<and> parsed (server w (requests_sent w)) = Inr doc
        \<and> subscript doc ''access_token'' = Inr tok
      \<longrightarrow> fst (renew w) = Inr ()
          \<and> access (snd (renew w)) = tok
          \<and> refresh (snd (renew w)) = refresh w
          \<and> trace (snd (renew w)) =
              trace w @ [Read_api_info, Token_post (client_id w) (client_secret w) (refresh w),
                         Write_token doc]
          \<and> (func w0 = (Inl e, w) \<and> contains ''token_expired'' (str_exn e)
               \<longrightarrow> with_authorization func w0 = func (snd (renew w))))"
proof (intro conjI impI)
  assume rej: "status_code (server w (requests_sent w)) \<noteq> 200"
  show "fst (renew w) =
        Inl (Exception (''unable to get new token:'' @ resp_text (server w (requests_sent w))))"
    using rej by (simp add: renew_rejected)
  show "access (snd (renew w)) = access w"
    using rej by (simp add: renew_trace_rejected)
  show "trace (snd (renew w)) =
          trace w @ [Read_api_info, Token_post (client_id w) (client_secret w) (refresh w)]"
    using rej by (simp add: renew_trace_rejected)
  show "with_authorization func w0 =
          (Inl (Exception (''unable to get new token:''
                  @ resp_text (server w (requests_sent w)))), snd (renew w))"
    if "func w0 = (Inl e, w) \<and> contains ''token_expired'' (str_exn e)"
    using that rej by (simp add: with_authorization_def renew_rejected)
next
  show "refresh (snd (renew w)) = refresh w" "refresh (snd (renew w)) = refresh w"
    by (rule renew_refresh)+
next
  assume "access (snd (renew w)) \<noteq> access w"
  then show "status_code (server w (requests_sent w)) = 200"
    by (rule renew_access_changed)
next
  assume ok: "fst (renew w) = Inr ()"
  show "status_code (server w (requests_sent w)) = 200"
    using renew_granted [OF ok] by blast
  show "\<exists>doc. parsed (server w (requests_sent w)) = Inr doc
              \<and> subscript doc ''access_token'' = Inr (access (snd (renew w)))"
    using renew_granted [OF ok] by blast
next
  assume "status_code (server w (requests_sent w)) = 200
        \<and> parsed (server w (requests_sent w)) = Inr doc
        \<and> subscript doc ''access_token'' = Inr tok"
  then have granted: "renew w =
     (Inr (), (emit (Write_token doc)
                (snd (http (Token_post (client_id w) (client_secret w) (refresh w))
                       (emit Read_api_info w))))\<lparr>access := tok\<rparr>)"
    using renew_on_200 [of w doc tok] by blast
  show "fst (renew w) = Inr ()"
    by (simp add: granted)
  show "access (snd (renew w)) = tok"
    by (simp add: granted)
  show "refresh (snd (renew w)) = refresh w"
    by (rule renew_refresh)
  show "trace (snd (renew w)) =
              trace w @ [Read_api_info, Token_post (client_id w) (client_secret w) (refresh w),
                         Write_token doc]"
    by (simp add: granted env_defs)
  show "with_authorization func w0 = func (snd (renew w))"
    if "func w0 = (Inl e, w) \<and> contains ''token_expired'' (str_exn e)"
    using that by (simp add: with_authorization_def granted)
qed


theorem renewal_rejected_is_fatal_witness:
  "with_authorization (make_request_func True ''u'' None) (world0 [expired_response, rejected_renewal])
     = (Inl (Exception ''unable to get new token:invalid_grant''),
        snd (renew (snd (make_request_func True ''u'' None (world0 [expired_response, rejected_renewal])))))
   \<and> fst (renew (snd (make_request_func True ''u'' None (world0 [expired_response, rejected_renewal]))))
     = Inl (Exception ''unable to get new token:invalid_grant'')
   \<and> access (snd (renew (snd (make_request_func True ''u'' None (world0 [expired_response, rejected_renewal])))))
     = PStr ''a0''
   \<and> refresh (snd (renew (snd (make_request_func True ''u'' None (world0 [expired_response, rejected_renewal])))))
     = PStr ''r0''
   \<and> fst (renew (snd (make_request_func True ''u'' None
         (world0 [expired_response, granted_renewal, ok_response])))) = Inr ()
   \<and> access (snd (renew (snd (make_request_func True ''u'' None
         (world0 [expired_response, granted_renewal, ok_response]))))) = PStr ''a1''
   \<and> refresh (snd (renew (snd (make_request_func True ''u'' None
         (world0 [expired_response, granted_renewal, ok_response]))))) = PStr ''r0''"
proof -
  let ?START = "world0 [expired_response, rejected_renewal]"
  let ?FUNC = "make_request_func True ''u'' None"
  let ?AFTER = "snd (?FUNC ?START)"
  have call: "?FUNC ?START = (Inl (Exception ''oauth_problem=token_expired''), ?AFTER)"
    by (simp add: make_request_func_def env_defs scenario_defs)
  have exp: "contains ''token_expired'' (str_exn (Exception ''oauth_problem=token_expired''))"
    by simp
  have rej: "status_code (server ?AFTER (requests_sent ?AFTER)) \<noteq> 200"
    by (simp add: make_request_func_def env_defs scenario_defs)
  have body: "resp_text (server ?AFTER (requests_sent ?AFTER)) = ''invalid_grant''"
    by (simp add: make_request_func_def env_defs scenario_defs)
  have creds: "access ?AFTER = PStr ''a0''" "refresh ?AFTER = PStr ''r0''"
    by (simp_all add: make_request_func_def env_defs scenario_defs)
  note T = renewal_rejected_is_fatal [of ?AFTER ?FUNC ?START "Exception ''oauth_problem=token_expired''"]
  from T rej have A:
    "fst (renew ?AFTER) =
       Inl (Exception (''unable to get new token:'' @ resp_text (server ?AFTER (requests_sent ?AFTER))))"
    "access (snd (renew ?AFTER)) = access ?AFTER"
    "refresh (snd (renew ?AFTER)) = refresh ?AFTER"
    by blast+
  from T rej call exp have B:
    "with_authorization ?FUNC ?START =
       (Inl (Exception (''unable to get new token:'' @ resp_text (server ?AFTER (requests_sent ?AFTER)))),
        snd (renew ?AFTER))"
    by blast
  let ?START2 = "world0 [expired_response, granted_renewal, ok_response]"
  let ?AFTER2 = "snd (?FUNC ?START2)"
  let ?DOC = "PDict [(''access_token'', PStr ''a1''), (''expires_in'', PInt 3600)]"
  have ok: "status_code (server ?AFTER2 (requests_sent ?AFTER2)) = 200"
    by (simp add: make_request_func_def env_defs scenario_defs)
  have doc: "parsed (server ?AFTER2 (requests_sent ?AFTER2)) = Inr ?DOC"
    by (simp add: make_request_func_def env_defs scenario_defs)
  have tok: "subscript ?DOC ''access_token'' = Inr (PStr ''a1'')"
    by simp
  have kept: "refresh ?AFTER2 = PStr ''r0''"
    by (simp add: make_request_func_def env_defs scenario_defs)
  from renewal_rejected_is_fatal [where w = ?AFTER2 and doc = ?DOC and tok = "PStr ''a1''"]
    ok doc tok
  have C: "fst (renew ?AFTER2) = Inr ()" "access (snd (renew ?AFTER2)) = PStr ''a1''"
    "refresh (snd (renew ?AFTER2)) = refresh ?AFTER2"
    by blast+
  show ?thesis
    unfolding A B C body creds kept by simp
qed

subsection \<open>The wrapper\<close>

lemma renew_one_request: "renewals (snd (renew w)) = Suc (renewals w)"
  by (simp add: renew_def renewals_def env_defs Let_def split: sum.splits)

lemma renew_no_call: "calls (snd (renew w)) = calls w"
  by (simp add: renew_def calls_def env_defs Let_def split: sum.splits)

lemma make_request_func_counts:
  "calls (snd (make_request_func b url data w)) = Suc (calls w)
   \<and> renewals (snd (make_request_func b url data w)) = renewals w"
  by (simp add: make_request_func_def calls_def renewals_def env_defs Let_def)

lemma make_request_bounds:
  "renewals (snd (make_request b url data w)) \<le> Suc (renewals w)
   \<and> calls (snd (make_request b url data w)) \<le> Suc (Suc (calls w))"
proof -
  let ?FUNC = "make_request_func b url data"
  obtain r1 w1 where f1: "?FUNC w = (r1, w1)" by (cases "?FUNC w")
  have c1: "calls w1 = Suc (calls w)" "renewals w1 = renewals w"
    using make_request_func_counts [of b url data w] f1 by simp_all
  obtain r2 w2 where rn: "renew w1 = (r2, w2)" by (cases "renew w1")
  have c2: "calls w2 = calls w1" "renewals w2 = Suc (renewals w1)"
    using renew_no_call [of w1] renew_one_request [of w1] rn by simp_all
  obtain r3 w3 where f3: "?FUNC w2 = (r3, w3)" by (cases "?FUNC w2")
  have c3: "calls w3 = Suc (calls w2)" "renewals w3 = renewals w2"
    using make_request_func_counts [of b url data w2] f3 by simp_all
  show ?thesis
    using f1 rn f3 c1 c2 c3
    by (auto simp add: make_request_def with_authorization_def split: sum.splits)
qed

text \<open>
  C4, as the code has it. A call that succeeds, or fails with a text that lacks
  \<open>token_expired\<close>, is passed through unchanged. A call that fails with
  \<open>token_expired\<close> in its text is followed by exactly one renewal request; when
  the renewal fails its error is the result and the call is not made again; when it
  succeeds the call is made once more, in the renewed state, and whatever that
  second call gives (a result, or any failure) is the result. For
  \<open>make_request\<close>, the wrapped function of the source, one logical call sends
  at most one renewal request and at most two requests to the service.
\<close>

theorem with_authorization_once:
  "(func w = (Inr r, w1) \<longrightarrow> with_authorization func w = (Inr r, w1))
   \<and> (func w = (Inl e, w1) \<and> \<not> contains ''token_expired'' (str_exn e)
        \<longrightarrow> with_authorization func w = (Inl e, w1))
   \<and> (func w = (Inl e, w1) \<and> contains ''token_expired'' (str_exn e)
        \<longrightarrow> renewals (snd (renew w1)) = Suc (renewals w1)
          \<and> (\<forall>e2 w2. renew w1 = (Inl e2, w2) \<longrightarrow> with_authorization func w = (Inl e2, w2))
          \<and> (\<forall>w2. renew w1 = (Inr (), w2) \<longrightarrow> with_authorization func w = func w2))
   \<and> renewals (snd (make_request b url data w)) \<le> Suc (renewals w)
   \<and> calls (snd (make_request b url data w)) \<le> Suc (Suc (calls w))"
  using make_request_bounds [of b url data w] renew_one_request [of w1]
  by (simp add: with_authorization_def)

text \<open>
  C4 as stated fails where the renewal is rejected: the first call failed with
  \<open>token_expired\<close>, one renewal request was sent, and the original request is not
  sent a second time.
\<close>

theorem renewal_rejected_no_retry:
  "fst (make_request True ''u'' None (world0 [expired_response, rejected_renewal]))
     = Inl (Exception ''unable to get new token:invalid_grant'')
   \<and> trace (snd (make_request True ''u'' None (world0 [expired_response, rejected_renewal])))
     = [Post ''u'' (PStr ''a0'') None, Read_api_info, Token_post ''id'' ''secret'' (PStr ''r0'')]"
  by (simp add: make_request_def with_authorization_def make_request_func_def renew_def
      env_defs scenario_defs)

theorem with_authorization_once_witness:
  "fst (make_request True ''u'' None (world0 [expired_response, granted_renewal, ok_response]))
     = Inr ok_response
   \<and> trace (snd (make_request True ''u'' None (world0 [expired_response, granted_renewal, ok_response])))
     = [Post ''u'' (PStr ''a0'') None, Read_api_info, Token_post ''id'' ''secret'' (PStr ''r0''),
        Write_token (PDict [(''access_token'', PStr ''a1''), (''expires_in'', PInt 3600)]),
        Post ''u'' (PStr ''a1'') None]"
proof -
  let ?START = "world0 [expired_response, granted_renewal, ok_response]"
  let ?FUNC = "make_request_func True ''u'' None"
  let ?FAILED = "snd (?FUNC ?START)"
  let ?RENEWED = "snd (renew ?FAILED)"
  have call: "?FUNC ?START = (Inl (Exception ''oauth_problem=token_expired''), ?FAILED)"
    by (simp add: make_request_func_def env_defs scenario_defs)
  have exp: "contains ''token_expired'' (str_exn (Exception ''oauth_problem=token_expired''))"
    by simp
  have granted: "renew ?FAILED = (Inr (), ?RENEWED)"
    by (simp add: renew_def make_request_func_def env_defs scenario_defs)
  note T = with_authorization_once [of ?FUNC ?START _ ?FAILED
      "Exception ''oauth_problem=token_expired''" True "''u''" None]
  from T call exp granted have retry: "with_authorization ?FUNC ?START = ?FUNC ?RENEWED"
    by blast
  have "fst (?FUNC ?RENEWED) = Inr ok_response"
    by (simp add: renew_def make_request_func_def env_defs scenario_defs)
  moreover have "trace (snd (?FUNC ?RENEWED))
     = [Post ''u'' (PStr ''a0'') None, Read_api_info, Token_post ''id'' ''secret'' (PStr ''r0''),
        Write_token (PDict [(''access_token'', PStr ''a1''), (''expires_in'', PInt 3600)]),
        Post ''u'' (PStr ''a1'') None]"
    by (simp add: renew_def make_request_func_def env_defs scenario_defs)
  ultimately show ?thesis
    unfolding make_request_def retry by simp
qed

subsection \<open>The scheduler\<close>

lemma add_until_done_continue:
  "poll_cycle c l t p r w = (Continue, w1) \<Longrightarrow>
   add_until_done c l t p r w = add_until_done c l t p r w1"
  by (subst add_until_done.simps) simp

lemma add_until_done_return:
  "poll_cycle c l t p r w = (Return s, w1) \<Longrightarrow> add_until_done c l t p r w = Some (Inr s, w1)"
  by (subst add_until_done.simps) simp

lemma add_until_done_raise:
  "poll_cycle c l t p r w = (Raise e, w1) \<Longrightarrow> add_until_done c l t p r w = Some (Inl e, w1)"
  by (subst add_until_done.simps) simp

lemma poll_cycle_obtained:
  "window_wait w = (Inr (), wa) \<Longrightarrow> poll c l p wa = (Inr info, w1) \<Longrightarrow>
   poll_cycle c l t p r w = decide c l t p r info w1"
  by (simp add: poll_cycle_def poll_and_decide_def)

lemma attempt_result:
  "add_player c l t p r (emit (Call_add_player l t p r) w1) = (res, w2) \<Longrightarrow>
   attempt c l t p r w1 = (Continue, if isl res then time_sleep 1 w2 else w2)"
  by (cases res) (simp_all add: attempt_def)

text \<open>
  C1. In a cycle whose poll obtains a record with an ownership type: on
  \<open>waivers\<close> the cycle ends with a pause of 10 and nothing else (no claim write),
  and the loop goes round again; on \<open>team\<close> with the target team's key the
  scheduler returns \<^verbatim>\<open>'owned'\<close>, with another key \<^verbatim>\<open>'taken'\<close>; on any other
  type the cycle calls \<open>add_player\<close> once with the request, pausing 1 if it raised.
\<close>

theorem polling_cycle_branches:
  assumes "window_wait w = (Inr (), wa)"
    and "poll c l p wa = (Inr info, w1)"
    and "subscript info ''ownership'' = Inr own"
    and "subscript own ''ownership_type'' = Inr ot"
  shows
   "(ot = PStr ''waivers'' \<longrightarrow>
        poll_cycle c l t p r w = (Continue, time_sleep 10 w1)
      \<and> trace (time_sleep 10 w1) = trace w1 @ [Sleep 10]
      \<and> add_until_done c l t p r w = add_until_done c l t p r (time_sleep 10 w1))
    \<and> (ot = PStr ''team'' \<and> subscript own ''owner_team_key'' = Inr (PStr t)
        \<longrightarrow> add_until_done c l t p r w = Some (Inr ''owned'', w1))
    \<and> (ot = PStr ''team'' \<and> (\<exists>k. subscript own ''owner_team_key'' = Inr k \<and> k \<noteq> PStr t)
        \<longrightarrow> add_until_done c l t p r w = Some (Inr ''taken'', w1))
    \<and> (ot \<noteq> PStr ''waivers'' \<and> ot \<noteq> PStr ''team''
        \<longrightarrow> (\<exists>res w2. add_player c l t p r (emit (Call_add_player l t p r) w1) = (res, w2)
               \<and> poll_cycle c l t p r w = (Continue, if isl res then time_sleep 1 w2 else w2)))"
proof (intro conjI impI)
  note cyc = poll_cycle_obtained [OF assms(1) assms(2), of t r]
  {
    assume wv: "ot = PStr ''waivers''"
    with assms show a: "poll_cycle c l t p r w = (Continue, time_sleep 10 w1)"
      by (simp add: cyc decide_def)
    show "trace (time_sleep 10 w1) = trace w1 @ [Sleep 10]"
      by (simp add: env_defs)
    from a show "add_until_done c l t p r w = add_until_done c l t p r (time_sleep 10 w1)"
      by (rule add_until_done_continue)
  }
  {
    assume "ot = PStr ''team'' \<and> subscript own ''owner_team_key'' = Inr (PStr t)"
    with assms have "poll_cycle c l t p r w = (Return ''owned'', w1)"
      by (simp add: cyc decide_def)
    then show "add_until_done c l t p r w = Some (Inr ''owned'', w1)"
      by (rule add_until_done_return)
  }
  {
    assume "ot = PStr ''team'' \<and> (\<exists>k. subscript own ''owner_team_key'' = Inr k \<and> k \<noteq> PStr t)"
    with assms have "poll_cycle c l t p r w = (Return ''taken'', w1)"
      by (auto simp add: cyc decide_def)
    then show "add_until_done c l t p r w = Some (Inr ''taken'', w1)"
      by (rule add_until_done_return)
  }
  {
    assume other: "ot \<noteq> PStr ''waivers'' \<and> ot \<noteq> PStr ''team''"
    obtain res w2 where ap: "add_player c l t p r (emit (Call_add_player l t p r) w1) = (res, w2)"
      by (cases "add_player c l t p r (emit (Call_add_player l t p r) w1)")
    from other assms have "poll_cycle c l t p r w = attempt c l t p r w1"
      by (simp add: cyc decide_def)
    with attempt_result [OF ap]
    have "poll_cycle c l t p r w = (Continue, if isl res then time_sleep 1 w2 else w2)"
      by simp
    with ap show "\<exists>res w2. add_player c l t p r (emit (Call_add_player l t p r) w1) = (res, w2)
               \<and> poll_cycle c l t p r w = (Continue, if isl res then time_sleep 1 w2 else w2)"
      by blast
  }
qed

theorem polling_cycle_branches_witness:
  "map_option fst (add_until_done reading_client ''L'' ''T'' ''p1'' None
      (world0 [ownership_response [(''ownership_type'', PStr ''team''),
                                   (''owner_team_key'', PStr ''T'')]]))
     = Some (Inr ''owned'')
   \<and> fst (poll_cycle reading_client ''L'' ''T'' ''p1'' None
        (world0 [ownership_response [(''ownership_type'', PStr ''waivers'')]])) = Continue
   \<and> trace (snd (poll_cycle reading_client ''L'' ''T'' ''p1'' None
        (world0 [ownership_response [(''ownership_type'', PStr ''waivers'')]])))
     = [Sleep 0, Call_player_id ''L'' ''p1'', Get ''L/p1'' (PStr ''a0''), Sleep 10]"
proof -
  let ?OWN = "[(''ownership_type'', PStr ''team''), (''owner_team_key'', PStr ''T'')]"
  let ?START = "world0 [ownership_response ?OWN]"
  let ?WAITED = "snd (window_wait ?START)"
  let ?POLLED = "snd (poll reading_client ''L'' ''p1'' ?WAITED)"
  have waited: "window_wait ?START = (Inr (), ?WAITED)"
    by (simp add: run_defs)
  have polled: "poll reading_client ''L'' ''p1'' ?WAITED = (Inr (the_player ?OWN), ?POLLED)"
    by (simp add: run_defs)
  have own: "subscript (the_player ?OWN) ''ownership'' = Inr (PDict ?OWN)"
    by (simp add: the_player_def)
  have ot: "subscript (PDict ?OWN) ''ownership_type'' = Inr (PStr ''team'')"
    by simp
  have key: "subscript (PDict ?OWN) ''owner_team_key'' = Inr (PStr ''T'')"
    by simp
  from polling_cycle_branches [OF waited polled own ot, of "''T''" None] key
  have owned: "add_until_done reading_client ''L'' ''T'' ''p1'' None ?START
               = Some (Inr ''owned'', ?POLLED)"
    by blast
  let ?WV = "[(''ownership_type'', PStr ''waivers'')]"
  let ?START2 = "world0 [ownership_response ?WV]"
  let ?WAITED2 = "snd (window_wait ?START2)"
  let ?POLLED2 = "snd (poll reading_client ''L'' ''p1'' ?WAITED2)"
  have waited2: "window_wait ?START2 = (Inr (), ?WAITED2)"
    by (simp add: run_defs)
  have polled2: "poll reading_client ''L'' ''p1'' ?WAITED2 = (Inr (the_player ?WV), ?POLLED2)"
    by (simp add: run_defs)
  have own2: "subscript (the_player ?WV) ''ownership'' = Inr (PDict ?WV)"
    by (simp add: the_player_def)
  have ot2: "subscript (PDict ?WV) ''ownership_type'' = Inr (PStr ''waivers'')"
    by simp
  from polling_cycle_branches [OF waited2 polled2 own2 ot2, of "''T''" None]
  have waiting: "poll_cycle reading_client ''L'' ''T'' ''p1'' None ?START2
                 = (Continue, time_sleep 10 ?POLLED2)"
    by blast
  have tr: "trace (time_sleep 10 ?POLLED2)
            = [Sleep 0, Call_player_id ''L'' ''p1'', Get ''L/p1'' (PStr ''a0''), Sleep 10]"
    by (simp add: run_defs)
  show ?thesis
    unfolding owned waiting using tr by simp
qed

text \<open>
  On the object of the main block no cycle obtains a record: the class has no
  \<open>player_id\<close>, and the first cycle ends the scheduler with \<open>AttributeError\<close>
  after the window wait (or with the exception of the window check).
\<close>

lemma add_until_done_YahooApi:
  "add_until_done YahooApi l t p r w =
     Some (Inl (case fst (window_wait w) of
                  Inl e \<Rightarrow> e
                | Inr u \<Rightarrow> AttributeError ''player_id''), snd (window_wait w))"
  by (rule add_until_done_raise)
    (simp add: poll_cycle_def poll_and_decide_def poll_def YahooApi_def
      split: prod.splits sum.splits)

lemma attempt_continues: "fst (attempt c l t p r w) = Continue"
  by (simp add: attempt_def split: prod.splits sum.splits)

text \<open>
  C5, as the code has it. In a cycle whose poll obtains a record with an ownership
  sub-record: an ownership type that is present and is neither \<open>waivers\<close> nor
  \<open>team\<close> takes the free-agent branch, the claim attempt, and the cycle does not
  fail; an ownership sub-record without the key \<open>ownership_type\<close> ends the
  scheduler with \<open>KeyError\<close>.
\<close>

theorem other_ownership_type_is_free_agent:
  assumes "window_wait w = (Inr (), wa)"
    and "poll c l p wa = (Inr info, w1)"
    and "subscript info ''ownership'' = Inr own"
  shows "(\<forall>ot. subscript own ''ownership_type'' = Inr ot \<and> ot \<noteq> PStr ''waivers'' \<and> ot \<noteq> PStr ''team''
            \<longrightarrow> poll_cycle c l t p r w = attempt c l t p r w1
                \<and> fst (attempt c l t p r w1) = Continue)
       \<and> (\<forall>kvs. own = PDict kvs \<and> map_of kvs ''ownership_type'' = None
            \<longrightarrow> add_until_done c l t p r w = Some (Inl (KeyError ''ownership_type''), w1))"
proof (intro conjI allI impI)
  note cyc = poll_cycle_obtained [OF assms(1) assms(2), of t r]
  fix ot
  assume "subscript own ''ownership_type'' = Inr ot \<and> ot \<noteq> PStr ''waivers'' \<and> ot \<noteq> PStr ''team''"
  with assms(3) show "poll_cycle c l t p r w = attempt c l t p r w1"
    by (simp add: cyc decide_def)
  show "fst (attempt c l t p r w1) = Continue"
    by (rule attempt_continues)
next
  note cyc = poll_cycle_obtained [OF assms(1) assms(2), of t r]
  fix kvs
  assume "own = PDict kvs \<and> map_of kvs ''ownership_type'' = None"
  with assms(3) have "poll_cycle c l t p r w = (Raise (KeyError ''ownership_type''), w1)"
    by (simp add: cyc decide_def)
  then show "add_until_done c l t p r w = Some (Inl (KeyError ''ownership_type''), w1)"
    by (rule add_until_done_raise)
qed

text \<open>
  C5 as stated fails for a payload without an ownership type: the scheduler raises
  \<open>KeyError\<close> after the poll, and no claim write follows.
\<close>

theorem absent_ownership_type_raises:
  "map_option fst (add_until_done reading_client ''L'' ''T'' ''p1'' None
      (world0 [ownership_response [(''owner_team_name'', PStr ''Rivals'')], ok_response]))
     = Some (Inl (KeyError ''ownership_type''))
   \<and> map_option (trace \<circ> snd) (add_until_done reading_client ''L'' ''T'' ''p1'' None
      (world0 [ownership_response [(''owner_team_name'', PStr ''Rivals'')], ok_response]))
     = Some [Sleep 0, Call_player_id ''L'' ''p1'', Get ''L/p1'' (PStr ''a0'')]"
proof -
  let ?START = "world0 [ownership_response [(''owner_team_name'', PStr ''Rivals'')], ok_response]"
  let ?CYCLE = "poll_cycle reading_client ''L'' ''T'' ''p1'' None ?START"
  have "?CYCLE = (Raise (KeyError ''ownership_type''), snd ?CYCLE)"
    by (simp add: cycle_defs run_defs)
  then have "add_until_done reading_client ''L'' ''T'' ''p1'' None ?START
             = Some (Inl (KeyError ''ownership_type''), snd ?CYCLE)"
    by (rule add_until_done_raise)
  moreover have "trace (snd ?CYCLE) = [Sleep 0, Call_player_id ''L'' ''p1'', Get ''L/p1'' (PStr ''a0'')]"
    by (simp add: cycle_defs run_defs)
  ultimately show ?thesis by simp
qed

theorem other_ownership_type_is_free_agent_witness:
  "fst (poll_cycle reading_client ''L'' ''T'' ''p1'' None (world0 [free_agent, ok_response])) = Continue
   \<and> claim_writes (snd (poll_cycle reading_client ''L'' ''T'' ''p1'' None (world0 [free_agent, ok_response]))) = 1"
proof -
  let ?OWN = "[(''ownership_type'', PStr ''freeagents'')]"
  let ?START = "world0 [free_agent, ok_response]"
  let ?WAITED = "snd (window_wait ?START)"
  let ?POLLED = "snd (poll reading_client ''L'' ''p1'' ?WAITED)"
  have waited: "window_wait ?START = (Inr (), ?WAITED)"
    by (simp add: run_defs)
  have polled: "poll reading_client ''L'' ''p1'' ?WAITED = (Inr (the_player ?OWN), ?POLLED)"
    by (simp add: run_defs free_agent_def)
  have own: "subscript (the_player ?OWN) ''ownership'' = Inr (PDict ?OWN)"
    by (simp add: the_player_def)
  have ot: "subscript (PDict ?OWN) ''ownership_type'' = Inr (PStr ''freeagents'')
            \<and> PStr ''freeagents'' \<noteq> PStr ''waivers'' \<and> PStr ''freeagents'' \<noteq> PStr ''team''"
    by simp
  from other_ownership_type_is_free_agent [OF waited polled own, of "''T''" None] ot
  have br: "poll_cycle reading_client ''L'' ''T'' ''p1'' None ?START
              = attempt reading_client ''L'' ''T'' ''p1'' None ?POLLED"
    and cont: "fst (attempt reading_client ''L'' ''T'' ''p1'' None ?POLLED) = Continue"
    by blast+
  have "claim_writes (snd (attempt reading_client ''L'' ''T'' ''p1'' None ?POLLED)) = 1"
    by (simp add: cycle_defs run_defs)
  with cont show ?thesis unfolding br by simp
qed

lemma decide_return:
  assumes "decide c l t p r info w1 = (Return s, w')"
  shows "w' = w1 \<and> (\<exists>own k. subscript info ''ownership'' = Inr own
          \<and> subscript own ''ownership_type'' = Inr (PStr ''team'')
          \<and> subscript own ''owner_team_key'' = Inr k
          \<and> s = (if k = PStr t then ''owned'' else ''taken''))"
proof (cases "subscript info ''ownership''")
  case (Inl e)
  with assms show ?thesis by (simp add: decide_def)
next
  case own: (Inr own)
  show ?thesis
  proof (cases "subscript own ''ownership_type''")
    case (Inl e)
    with assms own show ?thesis by (simp add: decide_def)
  next
    case ot: (Inr ot)
    show ?thesis
    proof (cases "ot = PStr ''waivers''")
      case True
      with assms own ot show ?thesis by (simp add: decide_def)
    next
      case nw: False
      show ?thesis
      proof (cases "ot = PStr ''team''")
        case False
        with assms own ot nw have "attempt c l t p r w1 = (Return s, w')"
          by (simp add: decide_def)
        with attempt_continues [of c l t p r w1] show ?thesis by simp
      next
        case team: True
        show ?thesis
        proof (cases "subscript own ''owner_team_key''")
          case (Inl e)
          with assms own ot team show ?thesis by (simp add: decide_def)
        next
          case (Inr k)
          with assms own ot team have "w' = w1"
            and "s = (if k = PStr t then ''owned'' else ''taken'')"
            by (simp_all add: decide_def split: if_splits)
          with own ot team Inr show ?thesis by simp
        qed
      qed
    qed
  qed
qed

lemma poll_cycle_return:
  assumes "poll_cycle c l t p r w = (Return s, w')"
  shows "\<exists>wa info own k. window_wait w = (Inr (), wa) \<and> poll c l p wa = (Inr info, w')
          \<and> subscript info ''ownership'' = Inr own
          \<and> subscript own ''ownership_type'' = Inr (PStr ''team'')
          \<and> subscript own ''owner_team_key'' = Inr k
          \<and> s = (if k = PStr t then ''owned'' else ''taken'')"
proof -
  obtain checked wa where ww: "window_wait w = (checked, wa)"
    by (cases "window_wait w")
  with assms have waited: "checked = Inr ()"
    by (cases checked) (simp_all add: poll_cycle_def)
  obtain res w1 where pl: "poll c l p wa = (res, w1)"
    by (cases "poll c l p wa")
  with assms ww waited obtain info where res: "res = Inr info"
    and dec: "decide c l t p r info w1 = (Return s, w')"
    by (cases res) (simp_all add: poll_cycle_def poll_and_decide_def)
  from decide_return [OF dec] pl res ww waited show ?thesis by blast
qed

lemma status_after_team_poll_aux:
  assumes "add_until_done c l t p r w = Some y"
  shows "\<forall>s w'. y = (Inr s, w') \<longrightarrow>
          (\<exists>w0 wa info own k. window_wait w0 = (Inr (), wa) \<and> poll c l p wa = (Inr info, w')
          \<and> subscript info ''ownership'' = Inr own
          \<and> subscript own ''ownership_type'' = Inr (PStr ''team'')
          \<and> subscript own ''owner_team_key'' = Inr k
          \<and> s = (if k = PStr t then ''owned'' else ''taken''))"
proof (rule add_until_done.raw_induct [where P = "\<lambda>c l t p r w y. \<forall>s w'. y = (Inr s, w') \<longrightarrow>
          (\<exists>w0 wa info own k. window_wait w0 = (Inr (), wa) \<and> poll c l p wa = (Inr info, w')
          \<and> subscript info ''ownership'' = Inr own
          \<and> subscript own ''ownership_type'' = Inr (PStr ''team'')
          \<and> subscript own ''owner_team_key'' = Inr k
          \<and> s = (if k = PStr t then ''owned'' else ''taken''))", OF _ assms])
  fix approx c l t p r w y
  assume IH: "\<And>c l t p r w y. approx c l t p r w = Some y \<Longrightarrow> \<forall>s w'. y = (Inr s, w') \<longrightarrow>
          (\<exists>w0 wa info own k. window_wait w0 = (Inr (), wa) \<and> poll c l p wa = (Inr info, w')
          \<and> subscript info ''ownership'' = Inr own
          \<and> subscript own ''ownership_type'' = Inr (PStr ''team'')
          \<and> subscript own ''owner_team_key'' = Inr k
          \<and> s = (if k = PStr t then ''owned'' else ''taken''))"
    and body: "(case poll_cycle c l t p r w of
        (Continue, w1) \<Rightarrow> approx c l t p r w1
      | (Return status, w1) \<Rightarrow> Some (Inr status, w1)
      | (Raise e, w1) \<Rightarrow> Some (Inl e, w1)) = Some y"
  obtain fl w1 where cyc: "poll_cycle c l t p r w = (fl, w1)"
    by (cases "poll_cycle c l t p r w")
  note step = body [unfolded cyc prod.case]
  show "\<forall>s w'. y = (Inr s, w') \<longrightarrow>
          (\<exists>w0 wa info own k. window_wait w0 = (Inr (), wa) \<and> poll c l p wa = (Inr info, w')
          \<and> subscript info ''ownership'' = Inr own
          \<and> subscript own ''ownership_type'' = Inr (PStr ''team'')
          \<and> subscript own ''owner_team_key'' = Inr k
          \<and> s = (if k = PStr t then ''owned'' else ''taken''))"
  proof (cases fl)
    case Continue
    from step have "approx c l t p r w1 = Some y"
      unfolding Continue flow.case .
    then show ?thesis by (rule IH)
  next
    case (Return s0)
    from step have y: "y = (Inr s0, w1)"
      unfolding Return flow.case by simp
    from cyc have "poll_cycle c l t p r w = (Return s0, w1)"
      unfolding Return .
    from poll_cycle_return [OF this] y show ?thesis by blast
  next
    case (Raise e)
    from step have y: "y = (Inl e, w1)"
      unfolding Raise flow.case by simp
    then show ?thesis by simp
  qed
qed

lemma status_only_after_team_poll:
  assumes "add_until_done c l t p r w = Some (Inr s, w')"
  shows "\<exists>w0 wa info own k. window_wait w0 = (Inr (), wa) \<and> poll c l p wa = (Inr info, w')
          \<and> subscript info ''ownership'' = Inr own
          \<and> subscript own ''ownership_type'' = Inr (PStr ''team'')
          \<and> subscript own ''owner_team_key'' = Inr k
          \<and> s = (if k = PStr t then ''owned'' else ''taken'')"
  using status_after_team_poll_aux [OF assms] by blast

text \<open>
  C3, as the code has it. A claim write that raises nothing does not end the
  scheduler: the cycle ends with no status and no pause, and the loop polls again.
  Whenever the scheduler returns a status, it is in the state right after a poll
  that reported the type \<open>team\<close>, and the status is \<^verbatim>\<open>'owned'\<close> exactly when
  that poll named the target team.
\<close>

theorem successful_write_polls_again:
  "(window_wait w = (Inr (), wa) \<and> poll c l p wa = (Inr info, w1)
     \<and> subscript info ''ownership'' = Inr own \<and> subscript own ''ownership_type'' = Inr ot
     \<and> ot \<noteq> PStr ''waivers'' \<and> ot \<noteq> PStr ''team''
     \<and> add_player c l t p r (emit (Call_add_player l t p r) w1) = (Inr (), w2)
     \<longrightarrow> poll_cycle c l t p r w = (Continue, w2)
         \<and> add_until_done c l t p r w = add_until_done c l t p r w2)
   \<and> (add_until_done c l t p r w = Some (Inr s, w')
     \<longrightarrow> (\<exists>w0 wa info own k. window_wait w0 = (Inr (), wa) \<and> poll c l p wa = (Inr info, w')
          \<and> subscript info ''ownership'' = Inr own
          \<and> subscript own ''ownership_type'' = Inr (PStr ''team'')
          \<and> subscript own ''owner_team_key'' = Inr k
          \<and> s = (if k = PStr t then ''owned'' else ''taken'')))"
proof (intro conjI impI)
  assume h: "window_wait w = (Inr (), wa) \<and> poll c l p wa = (Inr info, w1)
     \<and> subscript info ''ownership'' = Inr own \<and> subscript own ''ownership_type'' = Inr ot
     \<and> ot \<noteq> PStr ''waivers'' \<and> ot \<noteq> PStr ''team''
     \<and> add_player c l t p r (emit (Call_add_player l t p r) w1) = (Inr (), w2)"
  then have "poll_cycle c l t p r w = decide c l t p r info w1"
    by (simp add: poll_cycle_obtained)
  with h show cyc: "poll_cycle c l t p r w = (Continue, w2)"
    by (simp add: decide_def attempt_def)
  then show "add_until_done c l t p r w = add_until_done c l t p r w2"
    by (rule add_until_done_continue)
next
  assume "add_until_done c l t p r w = Some (Inr s, w')"
  then show "\<exists>w0 wa info own k. window_wait w0 = (Inr (), wa) \<and> poll c l p wa = (Inr info, w')
          \<and> subscript info ''ownership'' = Inr own
          \<and> subscript own ''ownership_type'' = Inr (PStr ''team'')
          \<and> subscript own ''owner_team_key'' = Inr k
          \<and> s = (if k = PStr t then ''owned'' else ''taken'')"
    by (rule status_only_after_team_poll)
qed

lemmas c3_defs = cycle_defs run_defs free_twice_then_owned_def

text \<open>
  C3 as stated fails: with a service that still reports the player free after the
  first successful write, the first cycle ends without a status, and the scheduler
  issues a second claim write for the same request before a poll reports the player
  owned. The pauses are all window waits of zero: no write failed.
\<close>

theorem successful_write_is_repeated:
  "fst (poll_cycle reading_client ''L'' ''T'' ''p1'' None (world0 free_twice_then_owned)) = Continue
   \<and> sleeps (snd (poll_cycle reading_client ''L'' ''T'' ''p1'' None (world0 free_twice_then_owned)))
       = [Sleep 0]
   \<and> claim_writes (snd (poll_cycle reading_client ''L'' ''T'' ''p1'' None
         (world0 free_twice_then_owned))) = 1
   \<and> map_option fst (add_until_done reading_client ''L'' ''T'' ''p1'' None
         (world0 free_twice_then_owned)) = Some (Inr ''owned'')
   \<and> map_option (claim_writes \<circ> snd) (add_until_done reading_client ''L'' ''T'' ''p1'' None
         (world0 free_twice_then_owned)) = Some 2
   \<and> map_option (sleeps \<circ> snd) (add_until_done reading_client ''L'' ''T'' ''p1'' None
         (world0 free_twice_then_owned)) = Some [Sleep 0, Sleep 0, Sleep 0]"
proof -
  let ?START = "world0 free_twice_then_owned"
  let ?FIRST = "snd (poll_cycle reading_client ''L'' ''T'' ''p1'' None ?START)"
  let ?SECOND = "snd (poll_cycle reading_client ''L'' ''T'' ''p1'' None ?FIRST)"
  let ?THIRD = "snd (poll_cycle reading_client ''L'' ''T'' ''p1'' None ?SECOND)"
  have c1: "poll_cycle reading_client ''L'' ''T'' ''p1'' None ?START = (Continue, ?FIRST)"
    by (simp add: c3_defs)
  have c2: "poll_cycle reading_client ''L'' ''T'' ''p1'' None ?FIRST = (Continue, ?SECOND)"
    by (simp add: c3_defs)
  have c3: "poll_cycle reading_client ''L'' ''T'' ''p1'' None ?SECOND = (Return ''owned'', ?THIRD)"
    by (simp add: c3_defs)
  have run: "add_until_done reading_client ''L'' ''T'' ''p1'' None ?START = Some (Inr ''owned'', ?THIRD)"
    using add_until_done_continue [OF c1] add_until_done_continue [OF c2]
      add_until_done_return [OF c3]
    by (simp only:)
  have f1: "fst (poll_cycle reading_client ''L'' ''T'' ''p1'' None ?START) = Continue"
    by (simp add: c3_defs)
  have s1: "sleeps ?FIRST = [Sleep 0]"
    by (simp add: c3_defs)
  have w1: "claim_writes ?FIRST = 1"
    by (simp add: c3_defs)
  have w3: "claim_writes ?THIRD = 2"
    by (simp add: c3_defs)
  have s3: "sleeps ?THIRD = [Sleep 0, Sleep 0, Sleep 0]"
    by (simp add: c3_defs)
  show ?thesis
    unfolding run using f1 s1 w1 w3 s3 by simp
qed

theorem successful_write_polls_again_witness:
  "fst (poll_cycle reading_client ''L'' ''T'' ''p1'' None (world0 [free_agent, ok_response])) = Continue
   \<and> sleeps (snd (poll_cycle reading_client ''L'' ''T'' ''p1'' None (world0 [free_agent, ok_response])))
       = [Sleep 0]"
proof -
  let ?OWN = "[(''ownership_type'', PStr ''freeagents'')]"
  let ?START = "world0 [free_agent, ok_response]"
  let ?WAITED = "snd (window_wait ?START)"
  let ?POLLED = "snd (poll reading_client ''L'' ''p1'' ?WAITED)"
  let ?WROTE = "snd (add_player reading_client ''L'' ''T'' ''p1'' None
                   (emit (Call_add_player ''L'' ''T'' ''p1'' None) ?POLLED))"
  have waited: "window_wait ?START = (Inr (), ?WAITED)"
    by (simp add: run_defs)
  have polled: "poll reading_client ''L'' ''p1'' ?WAITED = (Inr (the_player ?OWN), ?POLLED)"
    by (simp add: run_defs free_agent_def)
  have own: "subscript (the_player ?OWN) ''ownership'' = Inr (PDict ?OWN)"
    by (simp add: the_player_def)
  have ot: "subscript (PDict ?OWN) ''ownership_type'' = Inr (PStr ''freeagents'')"
    "PStr ''freeagents'' \<noteq> PStr ''waivers''" "PStr ''freeagents'' \<noteq> PStr ''team''"
    by simp_all
  have wrote: "add_player reading_client ''L'' ''T'' ''p1'' None
                 (emit (Call_add_player ''L'' ''T'' ''p1'' None) ?POLLED) = (Inr (), ?WROTE)"
    by (simp add: cycle_defs run_defs)
  from successful_write_polls_again [where w = ?START and wa = ?WAITED
      and c = reading_client and l = "''L''" and p = "''p1''" and info = "the_player ?OWN"
      and ?w1.0 = ?POLLED and own = "PDict ?OWN" and ot = "PStr ''freeagents''"
      and t = "''T''" and r = None and ?w2.0 = ?WROTE]
    waited polled own ot wrote
  have cyc: "poll_cycle reading_client ''L'' ''T'' ''p1'' None ?START = (Continue, ?WROTE)"
    by blast
  have "sleeps ?WROTE = [Sleep 0]"
    by (simp add: cycle_defs run_defs)
  then show ?thesis unfolding cyc by simp
qed

subsection \<open>The campaign\<close>

lemma main_loop_after_taken:
  "taken_run c l t ps d w = Some w1 \<Longrightarrow>
   main_loop c l t (ps @ qs) d w = main_loop c l t qs d w1"
proof (induction ps arbitrary: w)
  case Nil
  then show ?case by simp
next
  case (Cons a ps)
  then show ?case
    by (auto split: option.splits prod.splits sum.splits if_splits)
qed

text \<open>
  The loop on a client object that does have \<open>player_id\<close>. When the scheduler, run
  on the candidates \<open>ps\<close> in list order with the drop identifier \<open>d\<close>, returned
  \<^verbatim>\<open>'taken'\<close> for each of them, the loop runs it next on the following candidate
  \<open>p\<close> with the same \<open>d\<close>: \<^verbatim>\<open>'owned'\<close> ends the loop in the state of that
  run, whatever candidates \<open>qs\<close> follow; \<^verbatim>\<open>'taken'\<close> goes on with \<open>qs\<close>.
\<close>

lemma main_loop_in_order:
  assumes "taken_run c l t ps d w = Some w1"
  shows "(add_until_done c l t p d w1 = Some (Inr ''owned'', w2)
            \<longrightarrow> main_loop c l t (ps @ p # qs) d w = Some (Inr (), w2))
       \<and> (add_until_done c l t p d w1 = Some (Inr ''taken'', w2)
            \<longrightarrow> main_loop c l t (ps @ p # qs) d w = main_loop c l t qs d w2)
       \<and> main_loop c l t ps d w = Some (Inr (), w1)"
  using main_loop_after_taken [OF assms, of "p # qs"] main_loop_after_taken [OF assms, of "[]"]
  by simp

lemmas c9_defs = cycle_defs run_defs taken_then_owned_def client_calls_def

lemma main_loop_in_order_on_reading_client:
  "map_option fst (main_loop reading_client ''L'' ''T'' [''p1'', ''p2'', ''p3''] (Some ''d9'')
       (world0 taken_then_owned)) = Some (Inr ())
   \<and> map_option (client_calls \<circ> snd)
       (main_loop reading_client ''L'' ''T'' [''p1'', ''p2'', ''p3''] (Some ''d9'')
         (world0 taken_then_owned))
     = Some [Call_player_id ''L'' ''p1'', Call_add_player ''L'' ''T'' ''p1'' (Some ''d9''),
             Call_player_id ''L'' ''p1'',
             Call_player_id ''L'' ''p2'', Call_add_player ''L'' ''T'' ''p2'' (Some ''d9''),
             Call_player_id ''L'' ''p2'']"
proof -
  let ?START = "world0 taken_then_owned"
  let ?A1 = "snd (poll_cycle reading_client ''L'' ''T'' ''p1'' (Some ''d9'') ?START)"
  let ?A2 = "snd (poll_cycle reading_client ''L'' ''T'' ''p1'' (Some ''d9'') ?A1)"
  let ?B1 = "snd (poll_cycle reading_client ''L'' ''T'' ''p2'' (Some ''d9'') ?A2)"
  let ?B2 = "snd (poll_cycle reading_client ''L'' ''T'' ''p2'' (Some ''d9'') ?B1)"
  have a1: "poll_cycle reading_client ''L'' ''T'' ''p1'' (Some ''d9'') ?START = (Continue, ?A1)"
    by (simp add: c9_defs)
  have a2: "poll_cycle reading_client ''L'' ''T'' ''p1'' (Some ''d9'') ?A1 = (Return ''taken'', ?A2)"
    by (simp add: c9_defs)
  have b1: "poll_cycle reading_client ''L'' ''T'' ''p2'' (Some ''d9'') ?A2 = (Continue, ?B1)"
    by (simp add: c9_defs)
  have b2: "poll_cycle reading_client ''L'' ''T'' ''p2'' (Some ''d9'') ?B1 = (Return ''owned'', ?B2)"
    by (simp add: c9_defs)
  have first: "add_until_done reading_client ''L'' ''T'' ''p1'' (Some ''d9'') ?START
               = Some (Inr ''taken'', ?A2)"
    using add_until_done_continue [OF a1] add_until_done_return [OF a2] by (simp only:)
  have second: "add_until_done reading_client ''L'' ''T'' ''p2'' (Some ''d9'') ?A2
               = Some (Inr ''owned'', ?B2)"
    using add_until_done_continue [OF b1] add_until_done_return [OF b2] by (simp only:)
  have taken: "taken_run reading_client ''L'' ''T'' [''p1''] (Some ''d9'') ?START = Some ?A2"
    by (simp add: first)
  from main_loop_in_order [OF taken, of "''p2''" ?B2 "[''p3'']"] second
  have run: "main_loop reading_client ''L'' ''T'' ([''p1''] @ ''p2'' # [''p3'']) (Some ''d9'') ?START
             = Some (Inr (), ?B2)"
    by blast
  have calls: "client_calls ?B2
     = [Call_player_id ''L'' ''p1'', Call_add_player ''L'' ''T'' ''p1'' (Some ''d9''),
        Call_player_id ''L'' ''p1'',
        Call_player_id ''L'' ''p2'', Call_add_player ''L'' ''T'' ''p2'' (Some ''d9''),
        Call_player_id ''L'' ''p2'']"
    by (simp add: c9_defs)
  have "main_loop reading_client ''L'' ''T'' [''p1'', ''p2'', ''p3''] (Some ''d9'') ?START
        = Some (Inr (), ?B2)"
    using run by (simp only: append.simps)
  with calls show ?thesis by simp
qed

text \<open>
  The program itself runs the loop on the \<^verbatim>\<open>YahooApi\<close> object, which has no
  \<open>player_id\<close>: no run of the scheduler on it returns a status, and the loop ends
  by the exception of its first candidate's first cycle.
\<close>

lemma add_until_done_YahooApi_no_status:
  "add_until_done YahooApi l t p r w \<noteq> Some (Inr s, w2)"
  by (simp add: add_until_done_YahooApi)

lemma main_first_candidate_raises:
  "main l t (p # adds) d w =
     Some (Inl (case fst (window_wait w) of
                  Inl e \<Rightarrow> e
                | Inr u \<Rightarrow> AttributeError ''player_id''), snd (window_wait w))"
  by (simp add: main_def add_until_done_YahooApi)

text \<open>
  C9. The campaign of the main block does not do what the claim says. With two
  candidates and a service on which the first would be taken by another team and the
  second acquired, the program ends with \<open>AttributeError\<close> in the first
  candidate's first cycle, after the window wait: no request is sent and the second
  candidate is never run.
\<close>

theorem main_stops_at_first_candidate:
  "map_option fst (main ''L'' ''T'' [''p1'', ''p2''] (Some ''d9'') (world0 taken_then_owned))
     = Some (Inl (AttributeError ''player_id''))
   \<and> map_option (trace \<circ> snd)
         (main ''L'' ''T'' [''p1'', ''p2''] (Some ''d9'') (world0 taken_then_owned))
     = Some [Sleep 0]"
proof -
  let ?START = "world0 taken_then_owned"
  have waited: "fst (window_wait ?START) = Inr ()"
    by (simp add: run_defs)
  have slept: "trace (snd (window_wait ?START)) = [Sleep 0]"
    by (simp add: run_defs)
  have "main ''L'' ''T'' [''p1'', ''p2''] (Some ''d9'') ?START
        = Some (Inl (AttributeError ''player_id''), snd (window_wait ?START))"
    by (simp add: main_def add_until_done_YahooApi waited)
  with slept show ?thesis by simp
qed

end
